theory Spec2Isabelle
  imports Main
begin

section \<open>Configuration constants of makina404.py\<close>

definition SCREENSHOT_CONCURRENCY :: nat where
  "SCREENSHOT_CONCURRENCY = 5"

definition HTTPX_CONCURRENCY :: nat where
  "HTTPX_CONCURRENCY = 100"

definition RAPIDDNS_PATH :: string where
  "RAPIDDNS_PATH = ''rapiddns''"

definition INPUT_FILE :: string where
  "INPUT_FILE = ''domains.txt''"

section \<open>The external collaborators, as stubs\<close>

text \<open>
  The HTTP client, the browser engine and the webhook transport are libraries outside the
  repository. Each call into them is modelled by its possible results: a returned value, or
  one of the exception classes that the source distinguishes in its handlers.
\<close>

type_synonym bytes = "nat list"

text \<open>What \<open>await client.get(url, ...)\<close> does: it returns a response with a status code,
  or raises. The constructors are the exception classes of the handlers of
  \<open>check_subdomain\<close>, in the order of the source; \<open>OtherException\<close> is any other
  subclass of \<open>Exception\<close>.\<close>

datatype http_result =
    Response nat
  | HTTPStatusError nat
  | TimeoutException
  | ConnectError
  | NetworkError
  | TooManyRedirects
  | OtherException

text \<open>A call of the browser API returns, raises \<open>PlaywrightError\<close> (with its message),
  or raises another \<open>Exception\<close>.\<close>

datatype 'a outcome = Returns 'a | PlaywrightError string | OtherError string

text \<open>An exception that no handler has caught yet, with its message.\<close>

datatype raised = RaisedPlaywrightError string | RaisedException string

fun raising :: "'a outcome \<Rightarrow> raised option" where
  "raising (Returns v) = None"
| "raising (PlaywrightError e) = Some (RaisedPlaywrightError e)"
| "raising (OtherError e) = Some (RaisedException e)"

text \<open>The results of the browser calls made by one run of \<open>take_screenshot\<close>, in the
  order of the source: the five calls of the \<open>try\<close> block (\<open>page_close\<close> and
  \<open>context_close\<close> are its last two statements) and \<open>cleanup_close\<close>, the
  \<open>page.close()\<close> of the \<open>finally\<close> clause.\<close>

record page_script =
  new_context :: "unit outcome"
  new_page :: "unit outcome"
  goto :: "unit outcome"
  screenshot :: "bytes outcome"
  page_close :: "unit outcome"
  context_close :: "unit outcome"
  cleanup_close :: "unit outcome"

text \<open>The HTTP layer answers by URL; the browser behaves by the URL it is sent to.\<close>

record world =
  client :: "string \<Rightarrow> http_result"
  browser :: "string \<Rightarrow> page_script"

section \<open>Observable events\<close>

text \<open>
  A run is observed as the list of the calls it makes on the two semaphores, the HTTP
  client, the browser and the webhook. \<open>AcquireProbe\<close> and \<open>ReleaseProbe\<close> are entry
  to and exit from \<open>async with httpx_semaphore\<close>; \<open>AcquireCapture\<close> and
  \<open>ReleaseCapture\<close> those of \<open>async with browser_semaphore\<close>. \<open>ContextOpened\<close>,
  \<open>PageOpened\<close>, \<open>Navigated\<close>, \<open>ScreenshotTaken\<close>, \<open>PageClosed\<close> and
  \<open>ContextClosed\<close> record a browser call that returned. Console output of the probe and
  of the capture is not part of the trace.
\<close>

datatype event =
    AcquireProbe
  | ReleaseProbe
  | Get string
  | CaptureCall string
  | AcquireCapture
  | ReleaseCapture
  | ContextOpened
  | PageOpened
  | Navigated string
  | ScreenshotTaken
  | PageClosed
  | ContextClosed
  | AlertCall string
  | Post string

section \<open>take_screenshot\<close>

text \<open>
  The local variables of \<open>take_screenshot\<close>. \<open>page\<close> is \<open>None\<close> while the variable
  holds no page object, and \<open>Some c\<close> once \<open>context.new_page()\<close> returned, with
  \<open>c\<close> the value of \<open>page.is_closed()\<close>. \<open>context_open\<close> tells whether a browsing
  context has been created and not closed. \<open>raised\<close> is the exception with which the
  function is left, if any.
\<close>

record locals =
  page :: "bool option"
  context_open :: bool
  screenshot_bytes :: "bytes option"
  events :: "event list"
  raised :: "raised option"

definition emit :: "event \<Rightarrow> locals \<Rightarrow> locals" where
  "emit e l = l\<lparr>events := events l @ [e]\<rparr>"

text \<open>The statements of the \<open>try\<close> block, each run only when the one before returned.
  The result tells whether the block raised.\<close>

definition close_calls :: "page_script \<Rightarrow> locals \<Rightarrow> locals \<times> bool" where
  "close_calls s l =
     (case page_close s of
        Returns _ \<Rightarrow>
          (let l1 = emit PageClosed (l\<lparr>page := Some True\<rparr>) in
           case context_close s of
             Returns _ \<Rightarrow> (emit ContextClosed (l1\<lparr>context_open := False\<rparr>), False)
           | _ \<Rightarrow> (l1, True))
      | _ \<Rightarrow> (l, True))"

definition try_block :: "page_script \<Rightarrow> string \<Rightarrow> locals \<Rightarrow> locals \<times> bool" where
  "try_block s url l =
     (case new_context s of
        Returns _ \<Rightarrow>
          (let l1 = emit ContextOpened (l\<lparr>context_open := True\<rparr>) in
           case new_page s of
             Returns _ \<Rightarrow>
               (let l2 = emit PageOpened (l1\<lparr>page := Some False\<rparr>) in
                case goto s of
                  Returns _ \<Rightarrow>
                    (let l3 = emit (Navigated url) l2 in
                     case screenshot s of
                       Returns b \<Rightarrow>
                         close_calls s (emit ScreenshotTaken (l3\<lparr>screenshot_bytes := Some b\<rparr>))
                     | _ \<Rightarrow> (l3, True))
                | _ \<Rightarrow> (l2, True))
           | _ \<Rightarrow> (l1, True))
      | _ \<Rightarrow> (l, True))"

text \<open>The \<open>finally\<close> clause: \<open>if page and not page.is_closed(): await page.close()\<close>.
  No handler surrounds this call: when it raises, the exception leaves
  \<open>take_screenshot\<close>.\<close>

definition finally_block :: "page_script \<Rightarrow> locals \<Rightarrow> locals" where
  "finally_block s l =
     (case page l of
        Some False \<Rightarrow>
          (case cleanup_close s of
             Returns _ \<Rightarrow> emit PageClosed (l\<lparr>page := Some True\<rparr>)
           | _ \<Rightarrow> l\<lparr>raised := raising (cleanup_close s)\<rparr>)
      | _ \<Rightarrow> l)"

text \<open>Both \<open>except\<close> clauses only print, so the function goes on to \<open>finally\<close> whether
  the \<open>try\<close> block raised or not. Leaving \<open>async with browser_semaphore\<close> releases
  the slot, with or without an exception.\<close>

definition run_capture :: "page_script \<Rightarrow> string \<Rightarrow> locals" where
  "run_capture s url =
     emit ReleaseCapture
       (finally_block s
          (fst (try_block s url
             \<lparr>page = None, context_open = False, screenshot_bytes = None,
              events = [AcquireCapture], raised = None\<rparr>)))"

text \<open>\<open>take_screenshot\<close> gives the events of the call and the value of
  \<open>screenshot_bytes\<close>, which is what the function returns when it returns;
  \<open>capture_raises\<close> tells whether it is left with an exception instead.\<close>

definition take_screenshot :: "(string \<Rightarrow> page_script) \<Rightarrow> string \<Rightarrow> event list \<times> bytes option" where
  "take_screenshot br url =
     (let l = run_capture (br url) url in (events l, screenshot_bytes l))"

definition capture_raises :: "(string \<Rightarrow> page_script) \<Rightarrow> string \<Rightarrow> raised option" where
  "capture_raises br url = raised (run_capture (br url) url)"

section \<open>send_to_discord\<close>

text \<open>\<open>if not webhook_url or not screenshot_bytes: return\<close>; otherwise one POST to the
  webhook. The status of the response and every exception of the transport are only
  printed, so the call always returns.\<close>

definition send_to_discord :: "string option \<Rightarrow> string \<Rightarrow> bytes \<Rightarrow> event list" where
  "send_to_discord webhook_url subdomain_url shot =
     (case webhook_url of
        None \<Rightarrow> []
      | Some hook \<Rightarrow> if hook = [] \<or> shot = [] then [] else [Post hook])"

section \<open>check_subdomain\<close>

text \<open>The body shared by the two places that handle a 404: one capture, then, when the
  capture returned, an alert if the screenshot is truthy (neither \<open>None\<close> nor the empty
  byte string). What follows (\<open>return\<close>, or the travel of the exception of the capture) is
  in \<open>run_probe_loop\<close>.\<close>

definition handle_404 :: "world \<Rightarrow> string option \<Rightarrow> string \<Rightarrow> event list" where
  "handle_404 w webhook_url url =
     (case take_screenshot (browser w) url of
        (evs, shot) \<Rightarrow>
          CaptureCall url # evs @
          (case capture_raises (browser w) url of
             Some e \<Rightarrow> []
           | None \<Rightarrow>
               (case shot of
                  None \<Rightarrow> []
                | Some b \<Rightarrow>
                    if b = [] then [] else AlertCall url # send_to_discord webhook_url url b)))"

text \<open>The \<open>for proto in protocols\<close> loop, as the events of the task and the exception
  with which \<open>check_subdomain\<close> is left, if any. An iteration ends the function through
  the two \<open>return\<close> statements after a 404. Every other path reaches the next protocol,
  through \<open>continue\<close> or by falling off the end of the loop body; this includes an
  exception of \<open>take_screenshot\<close> in the \<open>try\<close> block, which
  \<open>except Exception\<close> catches. Raised in the handler of \<open>HTTPStatusError\<close>, the
  same exception is outside every handler and leaves \<open>check_subdomain\<close>. Leaving
  \<open>async with httpx_semaphore\<close> releases the slot on each of these paths.\<close>

fun then_loop :: "event list \<Rightarrow> event list \<times> raised option \<Rightarrow> event list \<times> raised option" where
  "then_loop evs (tr, r) = (evs @ tr, r)"

fun run_probe_loop ::
  "world \<Rightarrow> string option \<Rightarrow> string \<Rightarrow> string list \<Rightarrow> event list \<times> raised option" where
  "run_probe_loop w webhook_url subdomain [] = ([], None)"
| "run_probe_loop w webhook_url subdomain (proto # rest) =
     (let url = proto @ ''://'' @ subdomain in
      case client w url of
        Response status \<Rightarrow>
          (if status = 404
           then (case capture_raises (browser w) url of
                   None \<Rightarrow>
                     ([AcquireProbe, Get url] @ handle_404 w webhook_url url @ [ReleaseProbe],
                      None)
                 | Some e \<Rightarrow>
                     then_loop
                       ([AcquireProbe, Get url] @ handle_404 w webhook_url url @ [ReleaseProbe])
                       (run_probe_loop w webhook_url subdomain rest))
           else then_loop [AcquireProbe, Get url, ReleaseProbe]
                  (run_probe_loop w webhook_url subdomain rest))
      | HTTPStatusError status \<Rightarrow>
          (if status = 404
           then ([AcquireProbe, Get url] @ handle_404 w webhook_url url @ [ReleaseProbe],
                 capture_raises (browser w) url)
           else then_loop [AcquireProbe, Get url, ReleaseProbe]
                  (run_probe_loop w webhook_url subdomain rest))
      | TimeoutException \<Rightarrow>
          then_loop [AcquireProbe, Get url, ReleaseProbe]
            (run_probe_loop w webhook_url subdomain rest)
      | ConnectError \<Rightarrow>
          then_loop [AcquireProbe, Get url, ReleaseProbe]
            (run_probe_loop w webhook_url subdomain rest)
      | NetworkError \<Rightarrow>
          then_loop [AcquireProbe, Get url, ReleaseProbe]
            (run_probe_loop w webhook_url subdomain rest)
      | TooManyRedirects \<Rightarrow>
          then_loop [AcquireProbe, Get url, ReleaseProbe]
            (run_probe_loop w webhook_url subdomain rest)
      | OtherException \<Rightarrow>
          then_loop [AcquireProbe, Get url, ReleaseProbe]
            (run_probe_loop w webhook_url subdomain rest))"

definition probe_loop :: "world \<Rightarrow> string option \<Rightarrow> string \<Rightarrow> string list \<Rightarrow> event list" where
  "probe_loop w webhook_url subdomain protos =
     fst (run_probe_loop w webhook_url subdomain protos)"

definition protocols :: "string list" where
  "protocols = [''https'', ''http'']"

text \<open>\<open>check_subdomain\<close> is the trace of a task; \<open>check_subdomain_raises\<close> tells
  whether the task ends with an exception.\<close>

definition check_subdomain :: "world \<Rightarrow> string \<Rightarrow> string option \<Rightarrow> event list" where
  "check_subdomain w subdomain webhook_url = probe_loop w webhook_url subdomain protocols"

definition check_subdomain_raises :: "world \<Rightarrow> string \<Rightarrow> string option \<Rightarrow> raised option" where
  "check_subdomain_raises w subdomain webhook_url =
     snd (run_probe_loop w webhook_url subdomain protocols)"

section \<open>Reading a trace\<close>

text \<open>The URLs requested, captured and alerted, in the order of the trace.\<close>

fun attempts :: "event list \<Rightarrow> string list" where
  "attempts [] = []"
| "attempts (Get u # es) = u # attempts es"
| "attempts (e # es) = attempts es"

fun capture_calls :: "event list \<Rightarrow> string list" where
  "capture_calls [] = []"
| "capture_calls (CaptureCall u # es) = u # capture_calls es"
| "capture_calls (e # es) = capture_calls es"

fun alert_calls :: "event list \<Rightarrow> string list" where
  "alert_calls [] = []"
| "alert_calls (AlertCall u # es) = u # alert_calls es"
| "alert_calls (e # es) = alert_calls es"

text \<open>\<open>precedes a b tr\<close>: walking the trace from its start, \<open>b\<close> is not met before
  \<open>a\<close> has been.\<close>

fun precedes :: "event \<Rightarrow> event \<Rightarrow> event list \<Rightarrow> bool" where
  "precedes a b [] = True"
| "precedes a b (e # es) = (if e = a then True else if e = b then False else precedes a b es)"

text \<open>Python's truth value of the result of \<open>take_screenshot\<close>.\<close>

definition truthy :: "bytes option \<Rightarrow> bool" where
  "truthy v = (case v of None \<Rightarrow> False | Some b \<Rightarrow> b \<noteq> [])"

text \<open>A 404 seen by either of the two places that handle it.\<close>

fun is_404 :: "http_result \<Rightarrow> bool" where
  "is_404 (Response status) = (status = 404)"
| "is_404 (HTTPStatusError status) = (status = 404)"
| "is_404 r = False"

text \<open>The exception classes of the handler
  \<open>except (httpx.ConnectError, httpx.NetworkError)\<close>.\<close>

fun connection_failure :: "http_result \<Rightarrow> bool" where
  "connection_failure ConnectError = True"
| "connection_failure NetworkError = True"
| "connection_failure r = False"


text \<open>The events that \<open>take_screenshot\<close> can emit.\<close>

fun browser_event :: "event \<Rightarrow> bool" where
  "browser_event AcquireCapture = True"
| "browser_event ReleaseCapture = True"
| "browser_event ContextOpened = True"
| "browser_event PageOpened = True"
| "browser_event (Navigated u) = True"
| "browser_event ScreenshotTaken = True"
| "browser_event PageClosed = True"
| "browser_event ContextClosed = True"
| "browser_event e = False"

text \<open>A response, of whatever status: the result of \<open>client.get\<close> with which the
  statements after it run inside the \<open>try\<close> block.\<close>

fun is_response :: "http_result \<Rightarrow> bool" where
  "is_response (Response status) = True"
| "is_response r = False"



section \<open>Text\<close>

text \<open>
  Python's \<open>str\<close> is modelled by \<open>string\<close>, one \<open>char\<close> for each code point below 256.
  \<open>is_space\<close> is \<open>str.isspace\<close> on one such code point, the characters that
  \<open>str.strip()\<close> removes; \<open>line_break\<close> is the set of line boundaries of
  \<open>str.splitlines()\<close>.
\<close>

definition is_space :: "char \<Rightarrow> bool" where
  "is_space c =
     (let n = (of_char c :: nat)
      in (9 \<le> n \<and> n \<le> 13) \<or> (28 \<le> n \<and> n \<le> 32) \<or> n = 133 \<or> n = 160)"

definition strip :: "string \<Rightarrow> string" where
  "strip s = rev (dropWhile is_space (rev (dropWhile is_space s)))"

definition line_break :: "char \<Rightarrow> bool" where
  "line_break c =
     (let n = (of_char c :: nat)
      in (10 \<le> n \<and> n \<le> 13) \<or> (28 \<le> n \<and> n \<le> 30) \<or> n = 133)"

text \<open>\<open>splitlines_from cur s\<close> splits \<open>s\<close>, with \<open>cur\<close> the part of the current line
  already read. A carriage return followed by a line feed is one boundary, and a boundary
  at the very end opens no further line.\<close>

fun splitlines_from :: "string \<Rightarrow> string \<Rightarrow> string list" where
  "splitlines_from cur [] = (if cur = [] then [] else [cur])"
| "splitlines_from cur [c] = (if line_break c then [cur] else [cur @ [c]])"
| "splitlines_from cur (c # d # cs) =
     (if c = CHR 0x0D \<and> d = CHR 0x0A then cur # splitlines_from [] cs
      else if line_break c then cur # splitlines_from [] (d # cs)
      else splitlines_from (cur @ [c]) (d # cs))"

definition splitlines :: "string \<Rightarrow> string list" where
  "splitlines s = splitlines_from [] s"

definition startswith :: "string \<Rightarrow> string \<Rightarrow> bool" where
  "startswith s prefix = (take (length prefix) s = prefix)"

definition endswith :: "string \<Rightarrow> string \<Rightarrow> bool" where
  "endswith s suffix = (length suffix \<le> length s \<and> drop (length s - length suffix) s = suffix)"

text \<open>\<open>str(n)\<close> for a length.\<close>

function str_nat :: "nat \<Rightarrow> string" where
  "str_nat n =
     (if n < 10 then [char_of (48 + n)]
      else str_nat (n div 10) @ [char_of (48 + n mod 10)])"
  by pat_completeness auto
termination
  by (relation "measure id") auto

declare str_nat.simps [simp del]

section \<open>run_rapiddns\<close>

text \<open>What starting the tool and waiting for it does: \<open>create_subprocess_exec\<close> raises
  \<open>FileNotFoundError\<close> when the binary cannot be located; starting or communicating
  raises another \<open>Exception\<close> (with its message); or the process exits with a return code,
  its standard output and its standard error, both already decoded.\<close>

datatype proc_result =
    FileNotFoundError
  | ProcException string
  | Exited int string string

text \<open>A printed line, on standard output or on standard error.\<close>

datatype stream = Stdout | Stderr

type_synonym line = "stream \<times> string"

text \<open>The result of \<open>run_rapiddns\<close> is the lines it printed, and either \<open>Inl code\<close> for
  \<open>sys.exit(code)\<close> or \<open>Inr\<close> of the returned list. The list is made from a Python set,
  whose order of iteration is not fixed; the model keeps the order of the tool's output,
  without duplicates.\<close>

definition run_rapiddns :: "(string \<Rightarrow> proc_result) \<Rightarrow> string \<Rightarrow> line list \<times> (nat + string list)" where
  "run_rapiddns tool domain =
     (let start = (Stdout, ''[*] Enumerating subdomains for: '' @ domain) in
      case tool domain of
        Exited returncode out err \<Rightarrow>
          if returncode \<noteq> 0
          then ([start,
                 (Stderr, ''[!] Error running rapiddns for '' @ domain @ '': '' @ strip err)],
                Inr [])
          else
            (let output = strip out in
             if output \<noteq> []
             then (let found = splitlines output in
                   ([start,
                     (Stdout, ''[*] Found '' @ str_nat (length found)
                                @ '' potential subdomains for '' @ domain)],
                    Inr (remdups (filter (\<lambda>sub. sub \<noteq> []) (map strip found)))))
             else ([start, (Stdout, ''[*] No subdomains found by rapiddns for '' @ domain)],
                   Inr []))
      | FileNotFoundError \<Rightarrow>
          ([start,
            (Stderr, ''[!] Error: '' @ [CHR 0x27] @ RAPIDDNS_PATH @ [CHR 0x27]
                       @ '' command not found. Make sure rapiddns is installed and in your PATH.'')],
           Inl 1)
      | ProcException e \<Rightarrow>
          ([start, (Stderr, ''[!] Exception running rapiddns for '' @ domain @ '': '' @ e)],
           Inr []))"

section \<open>main\<close>

text \<open>The exception with which opening or reading the input file fails:
  \<open>FileNotFoundError\<close>, which \<open>main\<close> handles, or any other one
  (\<open>IsADirectoryError\<close>, \<open>PermissionError\<close>, \<open>UnicodeDecodeError\<close> while iterating),
  which it does not.\<close>

datatype open_error = NotFound | OtherOpenError string

text \<open>
  What a run of the script depends on.
  \<^item> \<open>input_file\<close>: the lines of the input file as iterating over the file yields them,
    \<open>None\<close> when \<open>open\<close> or the iteration raises; \<open>open_raises\<close> is the exception
    in that case.
  \<^item> \<open>DISCORD_WEBHOOK_URL\<close>: the webhook URL of the environment; \<open>urlparse_scheme\<close>:
    the scheme that \<open>urlparse\<close> finds in a URL.
  \<^item> \<open>launch\<close>: the result of starting Playwright and the HTTP client
    (\<open>async with async_playwright() as p, httpx.AsyncClient(...)\<close>) and of
    \<open>p.chromium.launch()\<close>. When it is an exception, \<open>raised_before_try\<close> tells
    whether the \<open>async with\<close> line raised it, outside the \<open>try\<close> statement, rather
    than \<open>launch()\<close> inside it.
  \<^item> \<open>rapiddns\<close>: the enumeration tool; \<open>net\<close>: the HTTP layer and browser that the
    probe tasks meet; \<open>browser_close\<close>: the result of the \<open>browser.close()\<close> of the
    \<open>finally\<close> clause.
\<close>

record system =
  input_file :: "string list option"
  open_raises :: open_error
  DISCORD_WEBHOOK_URL :: "string option"
  urlparse_scheme :: "string \<Rightarrow> string"
  launch :: "unit outcome"
  raised_before_try :: bool
  rapiddns :: "string \<Rightarrow> proc_result"
  net :: world
  browser_close :: "unit outcome"

text \<open>
  What a run is observed to do: the exit code of the process, the lines printed by \<open>main\<close>
  and \<open>run_rapiddns\<close>, the domains handed to \<open>run_rapiddns\<close>, the subdomains for which
  a \<open>check_subdomain\<close> task was created, the traces of the tasks when
  \<open>asyncio.gather\<close> returned (when it raises, \<open>main\<close> goes on while other tasks may
  still be running, and none is recorded), and whether the browser was closed. The traceback
  that the interpreter prints for an exception that leaves \<open>main\<close> is not part of
  \<open>printed\<close>.
\<close>

record run =
  exit_code :: nat
  printed :: "line list"
  enumerated :: "string list"
  scheduled :: "string list"
  completed :: "event list list"
  browser_closed :: bool

definition say :: "line list \<Rightarrow> run \<Rightarrow> run" where
  "say ls r = r\<lparr>printed := printed r @ ls\<rparr>"

text \<open>The validation of a subdomain in \<open>main\<close>:
  \<open>not sub or '.' not in sub or sub.startswith('.') or sub.endswith('.')\<close>.\<close>

definition skipped :: "string \<Rightarrow> bool" where
  "skipped sub =
     (sub = [] \<or> CHR ''.'' \<notin> set sub \<or> startswith sub ''.'' \<or> endswith sub ''.'')"

text \<open>The loop \<open>for domain in target_domains\<close>. The result tells whether
  \<open>run_rapiddns\<close> left through \<open>sys.exit\<close>, which ends the loop.\<close>

fun enumerate_domains :: "system \<Rightarrow> string list \<Rightarrow> run \<Rightarrow> run \<times> bool" where
  "enumerate_domains sys [] r = (r, False)"
| "enumerate_domains sys (domain # rest) r =
     (case run_rapiddns (rapiddns sys) domain of
        (out, Inl code) \<Rightarrow>
          ((say out r)\<lparr>exit_code := code, enumerated := enumerated r @ [domain]\<rparr>, True)
      | (out, Inr subdomains) \<Rightarrow>
          enumerate_domains sys rest
            ((say out r)\<lparr>enumerated := enumerated r @ [domain],
               scheduled := scheduled r @ filter (\<lambda>sub. \<not> skipped sub) subdomains\<rparr>))"

text \<open>The list comprehension that reads the input file.\<close>

definition target_domains :: "string list \<Rightarrow> string list" where
  "target_domains lines =
     map strip (filter (\<lambda>line. strip line \<noteq> [] \<and> \<not> startswith line ''#'') lines)"

definition webhook_warning :: "system \<Rightarrow> line list" where
  "webhook_warning sys =
     (case DISCORD_WEBHOOK_URL sys of
        None \<Rightarrow> [(Stderr, ''[!] Invalid or missing DISCORD_WEBHOOK_URL.'')]
      | Some url \<Rightarrow>
          if url = [] \<or> urlparse_scheme sys url \<notin> {''http'', ''https''}
          then [(Stderr, ''[!] Invalid or missing DISCORD_WEBHOOK_URL.'')]
          else [])"

definition banner :: "system \<Rightarrow> string list \<Rightarrow> line list" where
  "banner sys targets =
     [(Stdout, ''--- Starting Subdomain Takeover Scan ---''),
      (Stdout, ''Targets: '' @ str_nat (length targets) @ '' domains from '' @ INPUT_FILE),
      (Stdout, ''Screenshot Concurrency: '' @ str_nat SCREENSHOT_CONCURRENCY),
      (Stdout, ''HTTP Request Concurrency: '' @ str_nat HTTPX_CONCURRENCY),
      (Stdout, ''Discord Webhook Configured: ''
                 @ (case DISCORD_WEBHOOK_URL sys of
                      None \<Rightarrow> ''No''
                    | Some url \<Rightarrow> if url = [] then ''No'' else ''Yes'')),
      (Stdout, replicate 40 CHR ''-'')]"

text \<open>\<open>await asyncio.gather(*all_subdomain_check_tasks)\<close>, with the two \<open>except\<close>
  clauses of \<open>main\<close> around it. When a task ends with an exception, \<open>gather\<close> raises
  it and the clause for its class prints; of several such tasks the model takes the first in
  the order of creation.\<close>

definition first_raised :: "system \<Rightarrow> string list \<Rightarrow> raised option" where
  "first_raised sys subs =
     (case filter (\<lambda>r. r \<noteq> None)
             (map (\<lambda>sub. check_subdomain_raises (net sys) sub (DISCORD_WEBHOOK_URL sys)) subs) of
        [] \<Rightarrow> None
      | r # rs \<Rightarrow> r)"

definition gather_tasks :: "system \<Rightarrow> run \<Rightarrow> run" where
  "gather_tasks sys r =
     (if scheduled r \<noteq> []
      then
        (let r1 = say [(Stdout, [CHR 0x0A] @ ''[*] Checking '' @ str_nat (length (scheduled r))
                                  @ '' total subdomains concurrently...'')] r in
         case first_raised sys (scheduled r) of
           None \<Rightarrow>
             r1\<lparr>completed :=
                  map (\<lambda>sub. check_subdomain (net sys) sub (DISCORD_WEBHOOK_URL sys))
                    (scheduled r)\<rparr>
         | Some (RaisedPlaywrightError e) \<Rightarrow>
             say [(Stderr, ''[!] Failed to launch browser: '' @ e),
                  (Stderr, ''[!] Make sure you have run '' @ [CHR 0x27]
                             @ ''playwright install chromium'' @ [CHR 0x27])] r1
         | Some (RaisedException e) \<Rightarrow>
             say [(Stderr, ''[!] An unexpected error occurred during main execution: '' @ e)] r1)
      else say [(Stdout, [CHR 0x0A]
                   @ ''[*] No valid subdomains found across all targets to check.'')] r)"

text \<open>The \<open>finally\<close> clause after a successful launch:
  \<open>await browser.close()\<close>, then a line on the console. No handler surrounds the call:
  when it raises, the exception leaves \<open>main\<close> and the process exits with code 1. The
  result tells whether it raised.\<close>

definition close_browser :: "system \<Rightarrow> run \<Rightarrow> run \<times> bool" where
  "close_browser sys r =
     (case browser_close sys of
        Returns _ \<Rightarrow> ((say [(Stdout, ''[*] Browser closed.'')] r)\<lparr>browser_closed := True\<rparr>, False)
      | _ \<Rightarrow> (r\<lparr>exit_code := 1\<rparr>, True))"

text \<open>The part of \<open>main\<close> after a successful launch: enumeration and task creation, then
  \<open>asyncio.gather\<close>, then the \<open>finally\<close> clause, then the last line. \<open>SystemExit\<close>
  is not an \<open>Exception\<close>: it passes the two \<open>except\<close> clauses, runs \<open>finally\<close> and
  leaves \<open>main\<close>, and the process exits with its code. A task starts to run as soon as
  \<open>main\<close> next awaits, so the probes of one domain run while later domains are
  enumerated, and may have run when \<open>SystemExit\<close> ends the loop; the run records the
  traces of the tasks only where \<open>gather\<close> returns.\<close>

definition scan :: "system \<Rightarrow> string list \<Rightarrow> run \<Rightarrow> run" where
  "scan sys targets r =
     (case enumerate_domains sys targets r of
        (r1, True) \<Rightarrow> fst (close_browser sys r1)
      | (r1, False) \<Rightarrow>
          (case close_browser sys (gather_tasks sys r1) of
             (r2, True) \<Rightarrow> r2
           | (r2, False) \<Rightarrow> say [(Stdout, [CHR 0x0A] @ ''--- Scan Complete ---'')] r2))"

text \<open>\<open>main\<close>, and the exit code that \<open>asyncio.run(main())\<close> gives the process: 0 when
  \<open>main\<close> returns, the code of \<open>SystemExit\<close> when \<open>sys.exit\<close> was called, and 1
  when another exception leaves \<open>main\<close>.\<close>

definition main :: "system \<Rightarrow> run" where
  "main sys =
     (let r0 = \<lparr>exit_code = 0, printed = [], enumerated = [], scheduled = [], completed = [],
                browser_closed = False\<rparr> in
      case input_file sys of
        None \<Rightarrow>
          (case open_raises sys of
             NotFound \<Rightarrow>
               say [(Stderr, ''[!] Error: Input file '' @ [CHR 0x27] @ INPUT_FILE @ [CHR 0x27]
                               @ '' not found.'')] r0
           | OtherOpenError e \<Rightarrow> r0\<lparr>exit_code := 1\<rparr>)
      | Some lines \<Rightarrow>
          (let targets = target_domains lines in
           if targets = [] then say [(Stdout, ''[!] No domains found in input file.'')] r0
           else
             (let r1 = say (webhook_warning sys @ banner sys targets) r0 in
              case launch sys of
                Returns _ \<Rightarrow>
                  scan sys targets (say [(Stdout, ''[*] Browser launched successfully.'')] r1)
              | PlaywrightError e \<Rightarrow>
                  if raised_before_try sys then r1\<lparr>exit_code := 1\<rparr>
                  else
                    say [(Stderr, ''[!] Failed to launch browser: '' @ e),
                         (Stderr, ''[!] Make sure you have run '' @ [CHR 0x27]
                                    @ ''playwright install chromium'' @ [CHR 0x27]),
                         (Stdout, [CHR 0x0A] @ ''--- Scan Complete ---'')] r1
              | OtherError e \<Rightarrow>
                  if raised_before_try sys then r1\<lparr>exit_code := 1\<rparr>
                  else
                    say [(Stderr,
                          ''[!] An unexpected error occurred during main execution: '' @ e),
                         (Stdout, [CHR 0x0A] @ ''--- Scan Complete ---'')] r1)))"

section \<open>The event loop and the two semaphores\<close>

text \<open>
  The tasks created by \<open>main\<close> run on one event loop, which runs one task at a time from
  one suspension point to the next. A task is modelled by the events it has still to
  perform, with two flags that tell whether it is inside \<open>async with httpx_semaphore\<close>
  and inside \<open>async with browser_semaphore\<close>.
\<close>

record task =
  in_probe :: bool
  in_capture :: bool
  todo :: "event list"

text \<open>The state of the loop: the values of the two semaphores, which count the free slots,
  and the tasks.\<close>

record loop =
  httpx_semaphore :: nat
  browser_semaphore :: nat
  tasks :: "task list"

definition spawn :: "event list \<Rightarrow> task" where
  "spawn es = \<lparr>in_probe = False, in_capture = False, todo = es\<rparr>"

text \<open>The loop when the tasks have been created: the semaphores hold
  \<open>HTTPX_CONCURRENCY\<close> and \<open>SCREENSHOT_CONCURRENCY\<close>, and each task has its whole
  \<open>check_subdomain\<close> before it.\<close>

definition event_loop :: "world \<Rightarrow> string option \<Rightarrow> string list \<Rightarrow> loop" where
  "event_loop w webhook_url subs =
     \<lparr>httpx_semaphore = HTTPX_CONCURRENCY, browser_semaphore = SCREENSHOT_CONCURRENCY,
      tasks = map (\<lambda>sub. spawn (check_subdomain w sub webhook_url)) subs\<rparr>"

text \<open>
  \<open>perform i s\<close>: task \<open>i\<close> performs its next event. Entering \<open>async with\<close> on a
  semaphore whose value is 0 suspends the task: it cannot be performed now, and the result
  is \<open>None\<close>, as it is for a task that has finished. With a positive value the task takes
  a slot. Leaving the block gives the slot back, as \<open>asyncio.Semaphore.release\<close> does,
  without a bound. Every other event changes the task only. The order in which
  \<open>asyncio\<close> wakes suspended tasks is not modelled: any task that can run may be chosen.
\<close>

definition perform :: "nat \<Rightarrow> loop \<Rightarrow> loop option" where
  "perform i s =
     (if i < length (tasks s)
      then
        (let t = tasks s ! i in
         case todo t of
           [] \<Rightarrow> None
         | e # es \<Rightarrow>
             if e = AcquireProbe
             then (if httpx_semaphore s = 0 then None
                   else Some (s\<lparr>httpx_semaphore := httpx_semaphore s - 1,
                                tasks := (tasks s)[i := t\<lparr>in_probe := True, todo := es\<rparr>]\<rparr>))
             else if e = ReleaseProbe
             then Some (s\<lparr>httpx_semaphore := httpx_semaphore s + 1,
                          tasks := (tasks s)[i := t\<lparr>in_probe := False, todo := es\<rparr>]\<rparr>)
             else if e = AcquireCapture
             then (if browser_semaphore s = 0 then None
                   else Some (s\<lparr>browser_semaphore := browser_semaphore s - 1,
                                tasks := (tasks s)[i := t\<lparr>in_capture := True, todo := es\<rparr>]\<rparr>))
             else if e = ReleaseCapture
             then Some (s\<lparr>browser_semaphore := browser_semaphore s + 1,
                          tasks := (tasks s)[i := t\<lparr>in_capture := False, todo := es\<rparr>]\<rparr>)
             else Some (s\<lparr>tasks := (tasks s)[i := t\<lparr>todo := es\<rparr>]\<rparr>))
      else None)"

text \<open>A run of the loop under a schedule, the list of the tasks chosen in turn. Choosing a
  task that is suspended or has finished leaves the state as it is.\<close>

fun run_schedule :: "nat list \<Rightarrow> loop \<Rightarrow> loop" where
  "run_schedule [] s = s"
| "run_schedule (i # rest) s =
     run_schedule rest (case perform i s of None \<Rightarrow> s | Some s' \<Rightarrow> s')"

text \<open>The operations in flight: the tasks inside each of the two blocks.\<close>

definition in_flight_probe :: "loop \<Rightarrow> nat" where
  "in_flight_probe s = length (filter in_probe (tasks s))"

definition in_flight_capture :: "loop \<Rightarrow> nat" where
  "in_flight_capture s = length (filter in_capture (tasks s))"

text \<open>Whether some task has events left, and whether some task can perform its next
  event.\<close>

definition unfinished :: "loop \<Rightarrow> bool" where
  "unfinished s = list_ex (\<lambda>t. todo t \<noteq> []) (tasks s)"

definition runnable :: "loop \<Rightarrow> bool" where
  "runnable s = list_ex (\<lambda>i. perform i s \<noteq> None) [0 ..< length (tasks s)]"

text \<open>\<open>bracketed p c es\<close>: the events \<open>es\<close> fit a task whose flags are \<open>p\<close> and
  \<open>c\<close>: a slot is acquired only when it is not held and released only when it is, the
  capture slot is held only inside the probe slot, and at the end none is held.
  \<open>consistent P C s\<close>: each semaphore and the tasks inside its block add up to the
  capacity, and the events left to each task fit its flags.\<close>

fun bracketed :: "bool \<Rightarrow> bool \<Rightarrow> event list \<Rightarrow> bool" where
  "bracketed p c [] = (\<not> p \<and> \<not> c)"
| "bracketed p c (e # es) =
     (if e = AcquireProbe then \<not> p \<and> \<not> c \<and> bracketed True c es
      else if e = ReleaseProbe then p \<and> \<not> c \<and> bracketed False c es
      else if e = AcquireCapture then p \<and> \<not> c \<and> bracketed p True es
      else if e = ReleaseCapture then p \<and> c \<and> bracketed p False es
      else bracketed p c es)"

definition consistent :: "nat \<Rightarrow> nat \<Rightarrow> loop \<Rightarrow> bool" where
  "consistent P C s \<longleftrightarrow>
     httpx_semaphore s + in_flight_probe s = P
     \<and> browser_semaphore s + in_flight_capture s = C
     \<and> list_all (\<lambda>t. bracketed (in_probe t) (in_capture t) (todo t)) (tasks s)"

section \<open>Stubbed scenarios\<close>

text \<open>A browser on which every call returns, a stubbed HTTP layer that answers by
  scheme, and the world built from them.\<close>

definition ok_script :: page_script where
  "ok_script = \<lparr>new_context = Returns (), new_page = Returns (), goto = Returns (),
     screenshot = Returns [137, 80, 78, 71], page_close = Returns (),
     context_close = Returns (), cleanup_close = Returns ()\<rparr>"

definition stub_client :: "http_result \<Rightarrow> http_result \<Rightarrow> string \<Rightarrow> http_result" where
  "stub_client on_https on_http url = (if take 8 url = ''https://'' then on_https else on_http)"

definition stub_world :: "http_result \<Rightarrow> http_result \<Rightarrow> page_script \<Rightarrow> world" where
  "stub_world on_https on_http s =
     \<lparr>client = stub_client on_https on_http, browser = (\<lambda>url. s)\<rparr>"

text \<open>A browser on which navigation times out; and one on which, after that, the page
  cannot be closed either.\<close>

definition nav_timeout_script :: page_script where
  "nav_timeout_script = ok_script\<lparr>goto := PlaywrightError ''Timeout 15000ms exceeded.''\<rparr>"

definition close_fails_script :: page_script where
  "close_fails_script =
     nav_timeout_script\<lparr>cleanup_close := PlaywrightError ''Page.close: Connection closed''\<rparr>"

text \<open>An enumeration tool that finds four names for \<open>example.com\<close>, exits with code 2 for
  \<open>broken.org\<close> and cannot be located for any other domain; and a system around it, given
  the lines of its input file.\<close>

definition demo_tool :: "string \<Rightarrow> proc_result" where
  "demo_tool domain =
     (if domain = ''example.com''
      then Exited 0 (''old.example.com'' @ [CHR 0x0A] @ ''.bad.example.com'' @ [CHR 0x0A]
                     @ ''localhost'' @ [CHR 0x0A] @ ''new.example.com'' @ [CHR 0x0A]) []
      else if domain = ''broken.org'' then Exited 2 [] (''lookup failed'' @ [CHR 0x0A])
      else FileNotFoundError)"

definition demo_system :: "string list \<Rightarrow> system" where
  "demo_system lines =
     \<lparr>input_file = Some lines, open_raises = NotFound, DISCORD_WEBHOOK_URL = None,
      urlparse_scheme = (\<lambda>url. []), launch = Returns (), raised_before_try = False,
      rapiddns = demo_tool, net = stub_world (Response 404) (Response 200) ok_script,
      browser_close = Returns ()\<rparr>"

section \<open>Traces of the capture stage\<close>

lemma events_emit [simp]: "events (emit e l) = events l @ [e]"
  by (simp add: emit_def)

lemma raised_emit [simp]: "raised (emit e l) = raised l"
  by (simp add: emit_def)

lemma close_calls_events:
  "list_all browser_event (events l) \<Longrightarrow>
   list_all browser_event (events (fst (close_calls s l)))"
  by (simp add: close_calls_def Let_def split: outcome.splits)

lemma try_block_events:
  "list_all browser_event (events l) \<Longrightarrow>
   list_all browser_event (events (fst (try_block s url l)))"
  by (simp add: try_block_def Let_def close_calls_events split: outcome.splits)

lemma finally_block_events:
  "list_all browser_event (events l) \<Longrightarrow>
   list_all browser_event (events (finally_block s l))"
  by (simp add: finally_block_def split: option.splits bool.splits outcome.splits)

lemma take_screenshot_events: "list_all browser_event (fst (take_screenshot br url))"
  by (simp add: take_screenshot_def run_capture_def Let_def finally_block_events
      try_block_events)



lemma take_screenshot_close_fails:
  "take_screenshot (\<lambda>url. close_fails_script) u =
     ([AcquireCapture, ContextOpened, PageOpened, ReleaseCapture], None)"
  by (simp add: take_screenshot_def run_capture_def try_block_def close_calls_def
      finally_block_def close_fails_script_def nav_timeout_script_def ok_script_def Let_def
      emit_def)

lemma capture_raises_close_fails:
  "capture_raises (\<lambda>url. close_fails_script) u
     = Some (RaisedPlaywrightError ''Page.close: Connection closed'')"
  by (simp add: capture_raises_def run_capture_def try_block_def close_calls_def
      finally_block_def close_fails_script_def nav_timeout_script_def ok_script_def Let_def
      emit_def)


lemma attempts_append [simp]: "attempts (xs @ ys) = attempts xs @ attempts ys"
  by (induction xs rule: attempts.induct) simp_all

lemma capture_calls_append [simp]:
  "capture_calls (xs @ ys) = capture_calls xs @ capture_calls ys"
  by (induction xs rule: capture_calls.induct) simp_all

lemma alert_calls_append [simp]: "alert_calls (xs @ ys) = alert_calls xs @ alert_calls ys"
  by (induction xs rule: alert_calls.induct) simp_all

lemma browser_events_attempts: "list_all browser_event es \<Longrightarrow> attempts es = []"
  by (induction es rule: attempts.induct) simp_all

lemma browser_events_capture_calls: "list_all browser_event es \<Longrightarrow> capture_calls es = []"
  by (induction es rule: capture_calls.induct) simp_all

lemma browser_events_alert_calls: "list_all browser_event es \<Longrightarrow> alert_calls es = []"
  by (induction es rule: alert_calls.induct) simp_all



section \<open>Traces of the handling of a 404\<close>

lemma send_to_discord_cases:
  "send_to_discord hook u b = [] \<or> (\<exists>h. send_to_discord hook u b = [Post h])"
  by (simp add: send_to_discord_def split: option.splits)

lemma handle_404_shape:
  "\<exists>evs al. handle_404 w hook url = CaptureCall url # evs @ al
     \<and> list_all browser_event evs
     \<and> evs = fst (take_screenshot (browser w) url)
     \<and> (al = [] \<or> al = [AlertCall url] \<or> (\<exists>h. al = [AlertCall url, Post h]))"
  using take_screenshot_events [of "browser w" url] send_to_discord_cases
  by (cases "take_screenshot (browser w) url")
     (auto simp: handle_404_def split: option.splits)

lemma handle_404_attempts [simp]: "attempts (handle_404 w hook url) = []"
  using handle_404_shape [of w hook url] by (auto simp: browser_events_attempts)

lemma handle_404_capture_calls [simp]: "capture_calls (handle_404 w hook url) = [url]"
  using handle_404_shape [of w hook url] by (auto simp: browser_events_capture_calls)

lemma handle_404_alert_calls:
  "alert_calls (handle_404 w hook url) =
     (if capture_raises (browser w) url = None
         \<and> truthy (snd (take_screenshot (browser w) url)) then [url] else [])"
  using take_screenshot_events [of "browser w" url]
  by (cases "take_screenshot (browser w) url")
     (auto simp: handle_404_def truthy_def send_to_discord_def browser_events_alert_calls
           split: option.splits)

lemma handle_404_hd: "\<exists>es. handle_404 w hook url = CaptureCall url # es"
  using handle_404_shape [of w hook url] by auto

lemma precedes_capture_alert:
  "precedes (CaptureCall u) (AlertCall u) (handle_404 w hook u @ es)"
  using handle_404_hd [of w hook u] by auto



section \<open>Traces of check_subdomain\<close>

lemma fst_then_loop [simp]: "fst (then_loop evs p) = evs @ fst p"
  by (cases p) simp

lemma snd_then_loop [simp]: "snd (then_loop evs p) = snd p"
  by (cases p) simp

lemma probe_loop_Nil [simp]: "probe_loop w hook sub [] = []"
  by (simp add: probe_loop_def)

lemma probe_loop_Cons:
  "probe_loop w hook sub (proto # rest) =
     (if is_404 (client w (proto @ ''://'' @ sub))
      then [AcquireProbe, Get (proto @ ''://'' @ sub)]
             @ handle_404 w hook (proto @ ''://'' @ sub) @ [ReleaseProbe]
             @ (if is_response (client w (proto @ ''://'' @ sub))
                   \<and> capture_raises (browser w) (proto @ ''://'' @ sub) \<noteq> None
                then probe_loop w hook sub rest else [])
      else [AcquireProbe, Get (proto @ ''://'' @ sub), ReleaseProbe]
             @ probe_loop w hook sub rest)"
  by (cases "client w (proto @ ''://'' @ sub)")
     (auto simp: probe_loop_def Let_def split: option.splits)

declare run_probe_loop.simps [simp del]

lemma probe_loop_http:
  "probe_loop w hook sub [''http''] =
     (if is_404 (client w (''http://'' @ sub))
      then [AcquireProbe, Get (''http://'' @ sub)]
             @ handle_404 w hook (''http://'' @ sub) @ [ReleaseProbe]
      else [AcquireProbe, Get (''http://'' @ sub), ReleaseProbe])"
  using probe_loop_Cons [of w hook sub "''http''" "[]"] by simp

lemma check_subdomain_unfold:
  "check_subdomain w sub hook =
     (if is_404 (client w (''https://'' @ sub))
      then [AcquireProbe, Get (''https://'' @ sub)]
             @ handle_404 w hook (''https://'' @ sub) @ [ReleaseProbe]
             @ (if is_response (client w (''https://'' @ sub))
                   \<and> capture_raises (browser w) (''https://'' @ sub) \<noteq> None
                then probe_loop w hook sub [''http''] else [])
      else [AcquireProbe, Get (''https://'' @ sub), ReleaseProbe]
             @ probe_loop w hook sub [''http''])"
  unfolding check_subdomain_def protocols_def
  using probe_loop_Cons [of w hook sub "''https''" "[''http'']"] by simp

section \<open>The probe engine: claims C1, C2, C5, C6, C10\<close>

text \<open>Claim C1, as stated, fails: with HTTPS timing out and HTTP answering 404, the HTTP
  request is made after the timeout and ends in a capture.\<close>

theorem C1_timeout_counterexample:
  "client (stub_world TimeoutException (Response 404) ok_script) ''https://old.example.com''
     = TimeoutException
   \<and> attempts (check_subdomain (stub_world TimeoutException (Response 404) ok_script)
        ''old.example.com'' None) = [''https://old.example.com'', ''http://old.example.com'']
   \<and> capture_calls (check_subdomain (stub_world TimeoutException (Response 404) ok_script)
        ''old.example.com'' None) = [''http://old.example.com'']"
  by (simp add: check_subdomain_unfold probe_loop_http stub_world_def stub_client_def)

text \<open>Claim C1, amended: when the HTTPS attempt of a candidate ends in a timeout, the handler
  only prints; the HTTPS slot is released with no capture and no alert for the HTTPS URL, and
  the loop goes on to the HTTP attempt, which decides the rest of the probe.\<close>

theorem C1_timeout_falls_back_to_http:
  assumes "client w (''https://'' @ sub) = TimeoutException"
  shows "check_subdomain w sub hook =
           [AcquireProbe, Get (''https://'' @ sub), ReleaseProbe]
             @ probe_loop w hook sub [''http'']
       \<and> attempts (check_subdomain w sub hook) = [''https://'' @ sub, ''http://'' @ sub]
       \<and> ''https://'' @ sub \<notin> set (capture_calls (check_subdomain w sub hook))
       \<and> ''https://'' @ sub \<notin> set (alert_calls (check_subdomain w sub hook))"
  using assms
  by (simp add: check_subdomain_unfold probe_loop_http handle_404_alert_calls)

text \<open>The amended C1 at a candidate whose HTTPS attempt times out and whose HTTP attempt
  answers 200.\<close>

theorem C1_timeout_falls_back_to_http_witness:
  "client (stub_world TimeoutException (Response 200) ok_script) ''https://old.example.com''
     = TimeoutException
   \<and> check_subdomain (stub_world TimeoutException (Response 200) ok_script)
        ''old.example.com'' None =
       [AcquireProbe, Get ''https://old.example.com'', ReleaseProbe,
        AcquireProbe, Get ''http://old.example.com'', ReleaseProbe]"
proof -
  let ?w = "stub_world TimeoutException (Response 200) ok_script"
  have h: "client ?w (''https://'' @ ''old.example.com'') = TimeoutException"
    by (simp add: stub_world_def stub_client_def)
  have t: "probe_loop ?w None ''old.example.com'' [''http'']
             = [AcquireProbe, Get ''http://old.example.com'', ReleaseProbe]"
    by (simp add: probe_loop_http stub_world_def stub_client_def)
  show ?thesis using h C1_timeout_falls_back_to_http [OF h, of None] t by simp
qed

text \<open>Claim C2, as stated, fails: with HTTPS answering 200 and HTTP answering 404, the HTTP
  request is made after the HTTPS response and ends in a capture.\<close>

theorem C2_other_status_counterexample:
  "client (stub_world (Response 200) (Response 404) ok_script) ''https://old.example.com''
     = Response 200
   \<and> attempts (check_subdomain (stub_world (Response 200) (Response 404) ok_script)
        ''old.example.com'' None) = [''https://old.example.com'', ''http://old.example.com'']
   \<and> capture_calls (check_subdomain (stub_world (Response 200) (Response 404) ok_script)
        ''old.example.com'' None) = [''http://old.example.com'']"
  by (simp add: check_subdomain_unfold probe_loop_http stub_world_def stub_client_def)

text \<open>Claim C2, amended: when the HTTPS attempt of a candidate returns a status other than
  404, no capture and no alert are made for the HTTPS URL, and the loop goes on to the HTTP
  attempt, which decides the rest of the probe.\<close>

theorem C2_other_status_goes_on_to_http:
  assumes "client w (''https://'' @ sub) = Response status" and "status \<noteq> 404"
  shows "check_subdomain w sub hook =
           [AcquireProbe, Get (''https://'' @ sub), ReleaseProbe]
             @ probe_loop w hook sub [''http'']
       \<and> attempts (check_subdomain w sub hook) = [''https://'' @ sub, ''http://'' @ sub]
       \<and> ''https://'' @ sub \<notin> set (capture_calls (check_subdomain w sub hook))
       \<and> ''https://'' @ sub \<notin> set (alert_calls (check_subdomain w sub hook))"
  using assms
  by (simp add: check_subdomain_unfold probe_loop_http handle_404_alert_calls)

text \<open>The amended C2 at a candidate that answers 200 over HTTPS and 301 over HTTP.\<close>

theorem C2_other_status_goes_on_to_http_witness:
  "client (stub_world (Response 200) (Response 301) ok_script) ''https://new.example.com''
     = Response 200
   \<and> (200::nat) \<noteq> 404
   \<and> check_subdomain (stub_world (Response 200) (Response 301) ok_script)
        ''new.example.com'' None =
       [AcquireProbe, Get ''https://new.example.com'', ReleaseProbe,
        AcquireProbe, Get ''http://new.example.com'', ReleaseProbe]"
proof -
  let ?w = "stub_world (Response 200) (Response 301) ok_script"
  have h: "client ?w (''https://'' @ ''new.example.com'') = Response 200"
    by (simp add: stub_world_def stub_client_def)
  have n: "(200::nat) \<noteq> 404" by simp
  have t: "probe_loop ?w None ''new.example.com'' [''http'']
             = [AcquireProbe, Get ''http://new.example.com'', ReleaseProbe]"
    by (simp add: probe_loop_http stub_world_def stub_client_def)
  show ?thesis using h n C2_other_status_goes_on_to_http [OF h n, of None] t by simp
qed

lemma one_capture_when_capture_returns:
  assumes "capture_raises (browser w) (''https://'' @ sub) = None"
  shows "length (capture_calls (check_subdomain w sub hook)) \<le> 1
   \<and> length (alert_calls (check_subdomain w sub hook)) \<le> 1
   \<and> (\<forall>u \<in> set (capture_calls (check_subdomain w sub hook)).
         is_404 (client w u) \<and> precedes (Get u) (CaptureCall u) (check_subdomain w sub hook))
   \<and> (\<forall>u \<in> set (alert_calls (check_subdomain w sub hook)).
         u \<in> set (capture_calls (check_subdomain w sub hook))
         \<and> truthy (snd (take_screenshot (browser w) u))
         \<and> precedes (CaptureCall u) (AlertCall u) (check_subdomain w sub hook))"
  using assms
        precedes_capture_alert [of "''https://'' @ sub" w hook "[ReleaseProbe]"]
        precedes_capture_alert [of "''http://'' @ sub" w hook "[ReleaseProbe]"]
  by (simp add: check_subdomain_unfold probe_loop_http handle_404_alert_calls)

text \<open>Claim C5 at a candidate that answers 404 over both protocols, on a browser where
  navigation times out and the \<open>page.close()\<close> of the \<open>finally\<close> clause raises as well:
  the exception leaves \<open>take_screenshot\<close>, \<open>except Exception\<close> catches it and
  continues, so the \<open>return\<close> after the capture is not reached, HTTP is requested and
  answers 404, and a second capture call is made for the same candidate.\<close>

theorem C5_second_capture_after_cleanup_raises:
  "client (stub_world (Response 404) (Response 404) close_fails_script)
       ''https://old.example.com'' = Response 404
   \<and> client (stub_world (Response 404) (Response 404) close_fails_script)
       ''http://old.example.com'' = Response 404
   \<and> check_subdomain (stub_world (Response 404) (Response 404) close_fails_script)
        ''old.example.com'' (Some ''hook'') =
       [AcquireProbe, Get ''https://old.example.com'', CaptureCall ''https://old.example.com'',
        AcquireCapture, ContextOpened, PageOpened, ReleaseCapture, ReleaseProbe,
        AcquireProbe, Get ''http://old.example.com'', CaptureCall ''http://old.example.com'',
        AcquireCapture, ContextOpened, PageOpened, ReleaseCapture, ReleaseProbe]
   \<and> capture_calls (check_subdomain (stub_world (Response 404) (Response 404) close_fails_script)
        ''old.example.com'' (Some ''hook'')) =
       [''https://old.example.com'', ''http://old.example.com'']
   \<and> length (capture_calls (check_subdomain
        (stub_world (Response 404) (Response 404) close_fails_script)
        ''old.example.com'' (Some ''hook''))) = 2"
  by (simp add: check_subdomain_unfold probe_loop_http stub_world_def stub_client_def
      handle_404_def take_screenshot_close_fails capture_raises_close_fails)

text \<open>Claim C6: the requests of a candidate are the HTTPS URL alone or the HTTPS URL followed
  by the HTTP URL; a connection-level failure on HTTPS (\<open>ConnectError\<close> or
  \<open>NetworkError\<close>) releases the slot and goes on to the HTTP attempt; and when HTTP fails
  in the same way, no protocol remains and the probe ends with no capture and no alert.\<close>

theorem C6_https_first_and_connection_failure_falls_back:
  "(attempts (check_subdomain w sub hook) = [''https://'' @ sub]
      \<or> attempts (check_subdomain w sub hook) = [''https://'' @ sub, ''http://'' @ sub])
   \<and> (connection_failure (client w (''https://'' @ sub)) \<longrightarrow>
         check_subdomain w sub hook =
           [AcquireProbe, Get (''https://'' @ sub), ReleaseProbe]
             @ probe_loop w hook sub [''http'']
         \<and> attempts (check_subdomain w sub hook) = [''https://'' @ sub, ''http://'' @ sub])
   \<and> (connection_failure (client w (''https://'' @ sub))
        \<and> connection_failure (client w (''http://'' @ sub)) \<longrightarrow>
         check_subdomain w sub hook =
           [AcquireProbe, Get (''https://'' @ sub), ReleaseProbe,
            AcquireProbe, Get (''http://'' @ sub), ReleaseProbe])"
proof -
  have n: "connection_failure r \<Longrightarrow> \<not> is_404 r" for r
    by (cases r) simp_all
  show ?thesis
    by (auto simp: check_subdomain_unfold probe_loop_http dest: n)
qed

text \<open>Claim C6 at a candidate whose HTTPS attempt raises \<open>ConnectError\<close> and whose HTTP
  attempt raises \<open>NetworkError\<close>.\<close>

theorem C6_https_first_and_connection_failure_falls_back_witness:
  "connection_failure (client (stub_world ConnectError NetworkError ok_script)
      ''https://new.example.com'')
   \<and> connection_failure (client (stub_world ConnectError NetworkError ok_script)
      ''http://new.example.com'')
   \<and> check_subdomain (stub_world ConnectError NetworkError ok_script)
        ''new.example.com'' None =
       [AcquireProbe, Get ''https://new.example.com'', ReleaseProbe,
        AcquireProbe, Get ''http://new.example.com'', ReleaseProbe]"
proof -
  let ?v = "stub_world ConnectError NetworkError ok_script"
  have k: "connection_failure (client ?v (''https://'' @ ''new.example.com''))
           \<and> connection_failure (client ?v (''http://'' @ ''new.example.com''))"
    by (simp add: stub_world_def stub_client_def)
  have c: "check_subdomain ?v ''new.example.com'' None =
       [AcquireProbe, Get (''https://'' @ ''new.example.com''), ReleaseProbe,
        AcquireProbe, Get (''http://'' @ ''new.example.com''), ReleaseProbe]"
    using k C6_https_first_and_connection_failure_falls_back [of ?v "''new.example.com''" None]
    by blast
  show ?thesis using k c by simp
qed



section \<open>The enumerator adapter and the orchestrator\<close>

lemma exit_code_say [simp]: "exit_code (say ls r) = exit_code r"
  by (simp add: say_def)

lemma enumerated_say [simp]: "enumerated (say ls r) = enumerated r"
  by (simp add: say_def)

lemma scheduled_say [simp]: "scheduled (say ls r) = scheduled r"
  by (simp add: say_def)

lemma completed_say [simp]: "completed (say ls r) = completed r"
  by (simp add: say_def)

lemma run_rapiddns_exit:
  "snd (run_rapiddns tool d) = (if tool d = FileNotFoundError then Inl 1 else snd (run_rapiddns tool d))
   \<and> (tool d \<noteq> FileNotFoundError \<longrightarrow> (\<exists>subs. snd (run_rapiddns tool d) = Inr subs))"
  by (simp add: run_rapiddns_def Let_def split: proc_result.splits)

lemma run_rapiddns_missing: "tool d = FileNotFoundError \<Longrightarrow> snd (run_rapiddns tool d) = Inl 1"
  by (simp add: run_rapiddns_def)

lemma run_rapiddns_returns:
  "tool d \<noteq> FileNotFoundError \<Longrightarrow> \<exists>subs. snd (run_rapiddns tool d) = Inr subs"
  by (simp add: run_rapiddns_def Let_def split: proc_result.splits)

lemma enumerate_domains_exit:
  "snd (enumerate_domains sys ds r) = (\<exists>d \<in> set ds. rapiddns sys d = FileNotFoundError)"
proof (induction ds arbitrary: r)
  case Nil
  then show ?case by simp
next
  case (Cons d ds)
  show ?case
  proof (cases "rapiddns sys d = FileNotFoundError")
    case True
    then show ?thesis
      using run_rapiddns_missing [of "rapiddns sys" d]
      by (cases "run_rapiddns (rapiddns sys) d") simp
  next
    case False
    then obtain subs where "snd (run_rapiddns (rapiddns sys) d) = Inr subs"
      using run_rapiddns_returns by blast
    with False Cons.IH show ?thesis
      by (cases "run_rapiddns (rapiddns sys) d") simp
  qed
qed

lemma enumerate_domains_exit_code:
  "exit_code (fst (enumerate_domains sys ds r)) =
     (if \<exists>d \<in> set ds. rapiddns sys d = FileNotFoundError then 1 else exit_code r)"
proof (induction ds arbitrary: r)
  case Nil
  then show ?case by simp
next
  case (Cons d ds)
  show ?case
  proof (cases "rapiddns sys d = FileNotFoundError")
    case True
    then show ?thesis
      using run_rapiddns_missing [of "rapiddns sys" d]
      by (cases "run_rapiddns (rapiddns sys) d") simp
  next
    case False
    then obtain subs where "snd (run_rapiddns (rapiddns sys) d) = Inr subs"
      using run_rapiddns_returns by blast
    with False Cons.IH show ?thesis
      by (cases "run_rapiddns (rapiddns sys) d") simp
  qed
qed

lemma enumerate_domains_enumerated:
  "enumerated (fst (enumerate_domains sys ds r)) =
     enumerated r @ takeWhile (\<lambda>d. rapiddns sys d \<noteq> FileNotFoundError) ds
       @ take 1 (dropWhile (\<lambda>d. rapiddns sys d \<noteq> FileNotFoundError) ds)"
proof (induction ds arbitrary: r)
  case Nil
  then show ?case by simp
next
  case (Cons d ds)
  show ?case
  proof (cases "rapiddns sys d = FileNotFoundError")
    case True
    then show ?thesis
      using run_rapiddns_missing [of "rapiddns sys" d]
      by (cases "run_rapiddns (rapiddns sys) d") simp
  next
    case False
    then obtain subs where "snd (run_rapiddns (rapiddns sys) d) = Inr subs"
      using run_rapiddns_returns by blast
    with False Cons.IH show ?thesis
      by (cases "run_rapiddns (rapiddns sys) d") simp
  qed
qed

lemma enumerate_domains_scheduled:
  "set (scheduled (fst (enumerate_domains sys ds r))) \<subseteq> set (scheduled r) \<union> {sub. \<not> skipped sub}"
proof (induction ds arbitrary: r)
  case Nil
  then show ?case by simp
next
  case (Cons d ds)
  show ?case
  proof (cases "run_rapiddns (rapiddns sys) d")
    case (Pair out res)
    show ?thesis
    proof (cases res)
      case (Inl code)
      with Pair show ?thesis by auto
    next
      case (Inr subs)
      with Pair Cons.IH [of "(say out r)\<lparr>enumerated := enumerated r @ [d],
               scheduled := scheduled r @ filter (\<lambda>sub. \<not> skipped sub) subs\<rparr>"]
      show ?thesis by auto
    qed
  qed
qed

lemma enumerate_domains_completed:
  "completed (fst (enumerate_domains sys ds r)) = completed r"
proof (induction ds arbitrary: r)
  case Nil
  then show ?case by simp
next
  case (Cons d ds)
  show ?case
  proof (cases "run_rapiddns (rapiddns sys) d")
    case (Pair out res)
    with Cons.IH show ?thesis by (cases res) simp_all
  qed
qed

lemma startswith_dot: "startswith sub ''.'' \<longleftrightarrow> sub \<noteq> [] \<and> hd sub = CHR ''.''"
  by (cases sub) (simp_all add: startswith_def)

lemma endswith_dot: "endswith sub ''.'' \<longleftrightarrow> sub \<noteq> [] \<and> last sub = CHR ''.''"
  by (cases sub rule: rev_cases) (simp_all add: endswith_def)

lemma skipped_iff:
  "skipped sub \<longleftrightarrow> sub = [] \<or> CHR ''.'' \<notin> set sub \<or> hd sub = CHR ''.'' \<or> last sub = CHR ''.''"
  by (auto simp: skipped_def startswith_dot endswith_dot)

lemma close_browser_fields [simp]:
  "enumerated (fst (close_browser sys r)) = enumerated r"
  "scheduled (fst (close_browser sys r)) = scheduled r"
  "completed (fst (close_browser sys r)) = completed r"
  by (simp_all add: close_browser_def split: outcome.splits)

lemma close_browser_exit_code:
  "exit_code (fst (close_browser sys r)) =
     (if browser_close sys = Returns () then exit_code r else 1)"
  by (simp add: close_browser_def split: outcome.splits)

lemma close_browser_raises: "snd (close_browser sys r) = (browser_close sys \<noteq> Returns ())"
  by (simp add: close_browser_def split: outcome.splits)

lemma gather_tasks_fields [simp]:
  "exit_code (gather_tasks sys r) = exit_code r"
  "enumerated (gather_tasks sys r) = enumerated r"
  "scheduled (gather_tasks sys r) = scheduled r"
  by (simp_all add: gather_tasks_def Let_def split: option.splits raised.splits)

lemma gather_tasks_completed:
  "completed r = [] \<Longrightarrow>
   completed (gather_tasks sys r) = []
   \<or> completed (gather_tasks sys r) =
       map (\<lambda>sub. check_subdomain (net sys) sub (DISCORD_WEBHOOK_URL sys)) (scheduled r)"
  by (simp add: gather_tasks_def Let_def split: option.splits raised.splits)

lemma scan_exit_code:
  "exit_code (scan sys ts r) =
     (if (\<exists>d \<in> set ts. rapiddns sys d = FileNotFoundError) \<or> browser_close sys \<noteq> Returns ()
      then 1 else exit_code r)"
proof (cases "enumerate_domains sys ts r")
  case (Pair r1 exited)
  with enumerate_domains_exit [of sys ts r] enumerate_domains_exit_code [of sys ts r]
  have x: "exited = (\<exists>d \<in> set ts. rapiddns sys d = FileNotFoundError)"
    and c: "exit_code r1 = (if exited then 1 else exit_code r)"
    by simp_all
  show ?thesis
  proof (cases exited)
    case True
    with Pair x c show ?thesis
      by (simp add: scan_def close_browser_exit_code)
  next
    case False
    show ?thesis
    proof (cases "close_browser sys (gather_tasks sys r1)")
      case cb: (Pair r2 failed)
      with close_browser_exit_code [of sys "gather_tasks sys r1"]
        close_browser_raises [of sys "gather_tasks sys r1"]
      have "exit_code r2 = (if browser_close sys = Returns () then exit_code r1 else 1)"
        and "failed = (browser_close sys \<noteq> Returns ())"
        by simp_all
      with Pair False x c cb show ?thesis
        by (simp add: scan_def split: bool.splits)
    qed
  qed
qed

lemma scan_enumerated:
  "enumerated (scan sys ts r) = enumerated (fst (enumerate_domains sys ts r))"
proof (cases "enumerate_domains sys ts r")
  case (Pair r1 exited)
  show ?thesis
  proof (cases "close_browser sys (gather_tasks sys r1)")
    case cb: (Pair r2 failed)
    with close_browser_fields(1) [of sys "gather_tasks sys r1"]
    have "enumerated r2 = enumerated r1" by simp
    with Pair cb show ?thesis
      by (simp add: scan_def split: bool.splits)
  qed
qed

lemma scan_scheduled:
  "scheduled (scan sys ts r) = scheduled (fst (enumerate_domains sys ts r))"
proof (cases "enumerate_domains sys ts r")
  case (Pair r1 exited)
  show ?thesis
  proof (cases "close_browser sys (gather_tasks sys r1)")
    case cb: (Pair r2 failed)
    with close_browser_fields(2) [of sys "gather_tasks sys r1"]
    have "scheduled r2 = scheduled r1" by simp
    with Pair cb show ?thesis
      by (simp add: scan_def split: bool.splits)
  qed
qed

lemma scan_completed:
  assumes "completed r = []"
  shows "completed (scan sys ts r) = []
   \<or> completed (scan sys ts r) =
       map (\<lambda>sub. check_subdomain (net sys) sub (DISCORD_WEBHOOK_URL sys))
         (scheduled (scan sys ts r))"
proof (cases "enumerate_domains sys ts r")
  case (Pair r1 exited)
  with assms enumerate_domains_completed [of sys ts r] have e: "completed r1 = []" by simp
  show ?thesis
  proof (cases "close_browser sys (gather_tasks sys r1)")
    case cb: (Pair r2 failed)
    with close_browser_fields [of sys "gather_tasks sys r1"]
    have "scheduled r2 = scheduled r1" "completed r2 = completed (gather_tasks sys r1)"
      by simp_all
    with Pair cb e gather_tasks_completed [OF e, of sys] show ?thesis
      by (auto simp: scan_def split: bool.splits)
  qed
qed

lemma scan_completed_missing:
  assumes "completed r = []" and "\<exists>d \<in> set ts. rapiddns sys d = FileNotFoundError"
  shows "completed (scan sys ts r) = []"
proof (cases "enumerate_domains sys ts r")
  case (Pair r1 exited)
  with assms enumerate_domains_completed [of sys ts r] enumerate_domains_exit [of sys ts r]
  show ?thesis by (simp add: scan_def)
qed

lemma main_exit_code:
  "exit_code (main sys) =
     (if (input_file sys = None \<and> open_raises sys \<noteq> NotFound)
         \<or> (\<exists>lines. input_file sys = Some lines \<and> target_domains lines \<noteq> []
              \<and> (if launch sys = Returns ()
                  then (\<exists>d \<in> set (target_domains lines). rapiddns sys d = FileNotFoundError)
                       \<or> browser_close sys \<noteq> Returns ()
                  else raised_before_try sys))
      then 1 else 0)"
proof (cases "input_file sys")
  case None
  then show ?thesis by (simp add: main_def Let_def split: open_error.splits)
next
  case (Some lines)
  show ?thesis
  proof (cases "target_domains lines = []")
    case True
    with Some show ?thesis by (simp add: main_def)
  next
    case False
    show ?thesis
    proof (cases "launch sys")
      case (Returns u)
      with Some False show ?thesis
        by (simp add: main_def Let_def scan_exit_code)
    next
      case (PlaywrightError e)
      with Some False show ?thesis by (simp add: main_def Let_def)
    next
      case (OtherError e)
      with Some False show ?thesis by (simp add: main_def Let_def)
    qed
  qed
qed

lemma main_enumerated:
  assumes "input_file sys = Some lines" and "launch sys = Returns ()"
  shows "enumerated (main sys) =
           takeWhile (\<lambda>d. rapiddns sys d \<noteq> FileNotFoundError) (target_domains lines)
             @ take 1 (dropWhile (\<lambda>d. rapiddns sys d \<noteq> FileNotFoundError) (target_domains lines))"
  using assms
  by (simp add: main_def Let_def scan_enumerated enumerate_domains_enumerated)

lemma main_scheduled: "set (scheduled (main sys)) \<subseteq> {sub. \<not> skipped sub}"
proof -
  have s: "set (scheduled (scan sys ts r)) \<subseteq> {sub. \<not> skipped sub}" if "scheduled r = []" for ts r
    using enumerate_domains_scheduled [of sys ts r] that by (simp add: scan_scheduled)
  show ?thesis
  proof (cases "input_file sys")
    case None
    then show ?thesis by (simp add: main_def Let_def split: open_error.splits)
  next
    case (Some lines)
    show ?thesis
    proof (cases "launch sys")
      case (Returns u)
      with Some show ?thesis
        by (simp add: main_def Let_def s)
    next
      case (PlaywrightError e)
      with Some show ?thesis by (simp add: main_def Let_def)
    next
      case (OtherError e)
      with Some show ?thesis by (simp add: main_def Let_def)
    qed
  qed
qed

lemma main_completed:
  "completed (main sys) = []
   \<or> completed (main sys) =
       map (\<lambda>sub. check_subdomain (net sys) sub (DISCORD_WEBHOOK_URL sys)) (scheduled (main sys))"
proof (cases "input_file sys")
  case None
  then show ?thesis by (simp add: main_def Let_def split: open_error.splits)
next
  case (Some lines)
  show ?thesis
  proof (cases "launch sys")
    case (Returns u)
    show ?thesis
    proof (cases "target_domains lines = []")
      case True
      with Some show ?thesis by (simp add: main_def)
    next
      case False
      with Some Returns show ?thesis
        by (simp add: main_def Let_def scan_completed)
    qed
  next
    case (PlaywrightError e)
    with Some show ?thesis by (simp add: main_def Let_def)
  next
    case (OtherError e)
    with Some show ?thesis by (simp add: main_def Let_def)
  qed
qed

lemma main_completed_missing:
  assumes "input_file sys = Some lines" and "launch sys = Returns ()"
    and "\<exists>d \<in> set (target_domains lines). rapiddns sys d = FileNotFoundError"
  shows "completed (main sys) = []"
proof -
  from assms(3) have "target_domains lines \<noteq> []" by auto
  with assms show ?thesis
    by (simp add: main_def Let_def scan_completed_missing)
qed

section \<open>The capture engine: claim C3\<close>

lemma run_capture_context_open:
  "context_open (run_capture s url) \<longleftrightarrow>
     new_context s = Returns ()
     \<and> \<not> (new_page s = Returns () \<and> goto s = Returns () \<and> (\<exists>b. screenshot s = Returns b)
          \<and> page_close s = Returns () \<and> context_close s = Returns ())"
  by (auto simp: run_capture_def try_block_def close_calls_def finally_block_def emit_def Let_def
           split: outcome.splits option.splits bool.splits)

text \<open>Claim C3 at a navigation that times out: \<open>goto\<close> raises, the handler prints, the
  \<open>finally\<close> clause closes the page, and the capture slot is released while the browsing
  context opened by this call is still open; no call closes it.\<close>

theorem C3_context_left_open_on_navigation_error:
  "events (run_capture nav_timeout_script ''https://old.example.com'') =
     [AcquireCapture, ContextOpened, PageOpened, PageClosed, ReleaseCapture]
   \<and> context_open (run_capture nav_timeout_script ''https://old.example.com'')
   \<and> take_screenshot (browser (stub_world (Response 404) (Response 404) nav_timeout_script))
        ''https://old.example.com''
      = ([AcquireCapture, ContextOpened, PageOpened, PageClosed, ReleaseCapture], None)"
  by (simp add: take_screenshot_def run_capture_def try_block_def close_calls_def
      finally_block_def emit_def Let_def nav_timeout_script_def ok_script_def stub_world_def)

section \<open>The orchestrator and the enumerator adapter: claims C4, C7, C9\<close>

text \<open>Claim C4, as stated, fails: with the input file missing, and with a browser that cannot
  be launched, \<open>main\<close> prints the error and returns, so the exit code is 0.\<close>

theorem C4_exit_zero_counterexample:
  "input_file ((demo_system [])\<lparr>input_file := None\<rparr>) = None
   \<and> exit_code (main ((demo_system [])\<lparr>input_file := None\<rparr>)) = 0
   \<and> launch ((demo_system [''example.com''])\<lparr>launch := PlaywrightError ''Executable not found''\<rparr>)
        = PlaywrightError ''Executable not found''
   \<and> exit_code (main ((demo_system [''example.com''])
        \<lparr>launch := PlaywrightError ''Executable not found''\<rparr>)) = 0"
  by (simp add: main_exit_code demo_system_def)

text \<open>Claim C4, amended: the exit code is 0 on every run in which \<open>main\<close> returns, which
  includes normal completion with or without candidates, an input file that is not found, an
  input file without domains and a browser that fails to launch; it is 1 when the enumeration
  tool cannot be located for one of the target domains, and when another exception leaves
  \<open>main\<close>: an error other than \<open>FileNotFoundError\<close> while opening or reading the input
  file, a failure of the \<open>async with\<close> line that starts Playwright and the HTTP client,
  or a failure of the \<open>browser.close()\<close> of the \<open>finally\<close> clause.\<close>

theorem C4_exit_code_one_iff_exception_leaves_main:
  "exit_code (main sys) =
     (if (input_file sys = None \<and> open_raises sys \<noteq> NotFound)
         \<or> (\<exists>lines. input_file sys = Some lines \<and> target_domains lines \<noteq> []
              \<and> (if launch sys = Returns ()
                  then (\<exists>d \<in> set (target_domains lines). rapiddns sys d = FileNotFoundError)
                       \<or> browser_close sys \<noteq> Returns ()
                  else raised_before_try sys))
      then 1 else 0)"
  by (rule main_exit_code)

text \<open>The amended C4 on a run that meets a domain for which the tool is missing, on a run
  that completes with no candidate, on a run that may not read its input file, and on a run
  on which Playwright does not start.\<close>

theorem C4_exit_code_one_iff_exception_leaves_main_witness:
  "input_file (demo_system [''broken.org'', ''missing.net'', ''example.com''])
     = Some [''broken.org'', ''missing.net'', ''example.com'']
   \<and> launch (demo_system [''broken.org'', ''missing.net'', ''example.com'']) = Returns ()
   \<and> ''missing.net'' \<in> set (target_domains [''broken.org'', ''missing.net'', ''example.com''])
   \<and> rapiddns (demo_system [''broken.org'', ''missing.net'', ''example.com'']) ''missing.net''
       = FileNotFoundError
   \<and> exit_code (main (demo_system [''broken.org'', ''missing.net'', ''example.com''])) = 1
   \<and> exit_code (main (demo_system [''broken.org''])) = 0
   \<and> exit_code (main ((demo_system [])
        \<lparr>input_file := None, open_raises := OtherOpenError ''PermissionError''\<rparr>)) = 1
   \<and> exit_code (main ((demo_system [''broken.org''])
        \<lparr>launch := OtherError ''Driver not found'', raised_before_try := True\<rparr>)) = 1"
proof -
  have t: "target_domains [''broken.org'', ''missing.net'', ''example.com'']
             = [''broken.org'', ''missing.net'', ''example.com'']"
    by code_simp
  have u: "target_domains [''broken.org''] = [''broken.org'']"
    by code_simp
  have m: "rapiddns (demo_system ls) ''missing.net'' = FileNotFoundError" for ls
    by (simp add: demo_system_def demo_tool_def)
  have b: "rapiddns (demo_system ls) ''broken.org'' \<noteq> FileNotFoundError" for ls
    by (simp add: demo_system_def demo_tool_def)
  have i: "input_file (demo_system ls) = Some ls \<and> launch (demo_system ls) = Returns ()
           \<and> browser_close (demo_system ls) = Returns ()" for ls
    by (simp add: demo_system_def)
  have 1: "exit_code (main (demo_system [''broken.org'', ''missing.net'', ''example.com''])) = 1"
    using C4_exit_code_one_iff_exception_leaves_main
            [of "demo_system [''broken.org'', ''missing.net'', ''example.com'']"] t m i
    by auto
  have 2: "exit_code (main (demo_system [''broken.org''])) = 0"
    using C4_exit_code_one_iff_exception_leaves_main [of "demo_system [''broken.org'']"] u b i
    by auto
  have 3: "exit_code (main ((demo_system [])
        \<lparr>input_file := None, open_raises := OtherOpenError ''PermissionError''\<rparr>)) = 1"
    using C4_exit_code_one_iff_exception_leaves_main
            [of "(demo_system [])
                   \<lparr>input_file := None, open_raises := OtherOpenError ''PermissionError''\<rparr>"]
    by simp
  have 4: "exit_code (main ((demo_system [''broken.org''])
        \<lparr>launch := OtherError ''Driver not found'', raised_before_try := True\<rparr>)) = 1"
    using C4_exit_code_one_iff_exception_leaves_main
            [of "(demo_system [''broken.org''])
                   \<lparr>launch := OtherError ''Driver not found'', raised_before_try := True\<rparr>"] u
    by (simp add: demo_system_def)
  show ?thesis using t m i 1 2 3 4 by simp
qed

text \<open>Claim C7: a candidate that is empty, contains no \<open>.\<close>, or starts or ends with
  \<open>.\<close> is never given a \<open>check_subdomain\<close> task, and the probes that run are those of
  the scheduled candidates only.\<close>

theorem C7_malformed_candidates_never_probed:
  assumes "sub = [] \<or> CHR ''.'' \<notin> set sub \<or> hd sub = CHR ''.'' \<or> last sub = CHR ''.''"
  shows "sub \<notin> set (scheduled (main sys))
       \<and> (completed (main sys) = []
          \<or> completed (main sys) =
              map (\<lambda>sub. check_subdomain (net sys) sub (DISCORD_WEBHOOK_URL sys))
                (scheduled (main sys)))"
  using assms main_scheduled [of sys] main_completed [of sys]
  by (auto simp: skipped_iff)

text \<open>Claim C7 on a run in which the tool returns two well-formed names, one name with a leading
  \<open>.\<close> and one without \<open>.\<close>.\<close>

theorem C7_malformed_candidates_never_probed_witness:
  "hd ''.bad.example.com'' = CHR ''.''
   \<and> CHR ''.'' \<notin> set ''localhost''
   \<and> snd (run_rapiddns (rapiddns (demo_system [''example.com''])) ''example.com'')
       = Inr [''old.example.com'', ''.bad.example.com'', ''localhost'', ''new.example.com'']
   \<and> scheduled (main (demo_system [''example.com''])) = [''old.example.com'', ''new.example.com'']
   \<and> ''.bad.example.com'' \<notin> set (scheduled (main (demo_system [''example.com''])))
   \<and> ''localhost'' \<notin> set (scheduled (main (demo_system [''example.com''])))"
proof -
  have h: "''.bad.example.com'' = [] \<or> CHR ''.'' \<notin> set ''.bad.example.com''
           \<or> hd ''.bad.example.com'' = CHR ''.'' \<or> last ''.bad.example.com'' = CHR ''.''"
    by simp
  have k: "''localhost'' = [] \<or> CHR ''.'' \<notin> set ''localhost''
           \<or> hd ''localhost'' = CHR ''.'' \<or> last ''localhost'' = CHR ''.''"
    by simp
  have r: "snd (run_rapiddns (rapiddns (demo_system [''example.com''])) ''example.com'')
       = Inr [''old.example.com'', ''.bad.example.com'', ''localhost'', ''new.example.com'']"
    by code_simp
  have s: "scheduled (main (demo_system [''example.com'']))
             = [''old.example.com'', ''new.example.com'']"
    by code_simp
  show ?thesis
    using h k r s
      C7_malformed_candidates_never_probed [OF h, of "demo_system [''example.com'']"]
      C7_malformed_candidates_never_probed [OF k, of "demo_system [''example.com'']"]
    by simp
qed

text \<open>Claim C9: when the tool exits with a non-zero code for a domain, \<open>run_rapiddns\<close>
  prints the stripped standard error on standard error and returns the empty list, and the
  loop of \<open>main\<close> goes on with the remaining domains, scheduling nothing for this one; when
  the tool cannot be located, \<open>run_rapiddns\<close> leaves through \<open>sys.exit(1)\<close>, the loop
  stops at that domain, no task is awaited and the process exits with code 1. So the domains
  enumerated by a run are the target domains up to and including the first one for which the
  tool is missing, and all of them when there is none.\<close>

theorem C9_nonzero_exit_continues_missing_tool_aborts:
  "(rapiddns sys d = Exited returncode out err \<and> returncode \<noteq> 0 \<longrightarrow>
      run_rapiddns (rapiddns sys) d =
        ([(Stdout, ''[*] Enumerating subdomains for: '' @ d),
          (Stderr, ''[!] Error running rapiddns for '' @ d @ '': '' @ strip err)], Inr [])
      \<and> enumerate_domains sys (d # rest) r =
          enumerate_domains sys rest
            ((say [(Stdout, ''[*] Enumerating subdomains for: '' @ d),
                   (Stderr, ''[!] Error running rapiddns for '' @ d @ '': '' @ strip err)] r)
               \<lparr>enumerated := enumerated r @ [d]\<rparr>))
   \<and> (rapiddns sys d = FileNotFoundError \<longrightarrow>
        snd (run_rapiddns (rapiddns sys) d) = Inl 1
        \<and> snd (enumerate_domains sys (d # rest) r)
        \<and> exit_code (fst (enumerate_domains sys (d # rest) r)) = 1
        \<and> enumerated (fst (enumerate_domains sys (d # rest) r)) = enumerated r @ [d])
   \<and> (input_file sys = Some lines \<and> launch sys = Returns () \<longrightarrow>
        enumerated (main sys) =
          takeWhile (\<lambda>d. rapiddns sys d \<noteq> FileNotFoundError) (target_domains lines)
            @ take 1 (dropWhile (\<lambda>d. rapiddns sys d \<noteq> FileNotFoundError) (target_domains lines))
        \<and> ((\<exists>d \<in> set (target_domains lines). rapiddns sys d = FileNotFoundError) \<longrightarrow>
              exit_code (main sys) = 1 \<and> completed (main sys) = []))"
proof -
  have a: "run_rapiddns (rapiddns sys) d =
        ([(Stdout, ''[*] Enumerating subdomains for: '' @ d),
          (Stderr, ''[!] Error running rapiddns for '' @ d @ '': '' @ strip err)], Inr [])"
    if "rapiddns sys d = Exited returncode out err" "returncode \<noteq> 0"
    using that by (simp add: run_rapiddns_def)
  have b: "snd (enumerate_domains sys (d # rest) r)
        \<and> exit_code (fst (enumerate_domains sys (d # rest) r)) = 1
        \<and> enumerated (fst (enumerate_domains sys (d # rest) r)) = enumerated r @ [d]"
    if "rapiddns sys d = FileNotFoundError"
    using that enumerate_domains_exit [of sys "d # rest" r]
      enumerate_domains_exit_code [of sys "d # rest" r]
      enumerate_domains_enumerated [of sys "d # rest" r]
    by simp
  have c: "exit_code (main sys) = 1 \<and> completed (main sys) = []"
    if "input_file sys = Some lines" "launch sys = Returns ()"
       "\<exists>d \<in> set (target_domains lines). rapiddns sys d = FileNotFoundError"
  proof -
    from that have "target_domains lines \<noteq> []" by auto
    with that have "exit_code (main sys) = 1"
      by (auto simp: main_exit_code)
    then show ?thesis using main_completed_missing [OF that] by simp
  qed
  have a2: "enumerate_domains sys (d # rest) r =
          enumerate_domains sys rest
            ((say [(Stdout, ''[*] Enumerating subdomains for: '' @ d),
                   (Stderr, ''[!] Error running rapiddns for '' @ d @ '': '' @ strip err)] r)
               \<lparr>enumerated := enumerated r @ [d]\<rparr>)"
    if "rapiddns sys d = Exited returncode out err" "returncode \<noteq> 0"
    using a [OF that] by (simp add: say_def)
  have e: "enumerated (main sys) =
          takeWhile (\<lambda>d. rapiddns sys d \<noteq> FileNotFoundError) (target_domains lines)
            @ take 1 (dropWhile (\<lambda>d. rapiddns sys d \<noteq> FileNotFoundError) (target_domains lines))"
    if "input_file sys = Some lines" "launch sys = Returns ()"
    using that by (rule main_enumerated)
  have m: "snd (run_rapiddns (rapiddns sys) d) = Inl 1" if "rapiddns sys d = FileNotFoundError"
    using that by (rule run_rapiddns_missing)
  show ?thesis
    using a a2 b c e m by blast
qed

text \<open>Claim C9 on a run over four domains: a non-zero exit for the first, names for the second,
  the tool missing for the third, and the fourth never enumerated.\<close>

theorem C9_nonzero_exit_continues_missing_tool_aborts_witness:
  "rapiddns (demo_system [''broken.org'', ''example.com'', ''missing.net'', ''late.example''])
       ''broken.org'' = Exited 2 [] (''lookup failed'' @ [CHR 0x0A])
   \<and> (2::int) \<noteq> 0
   \<and> run_rapiddns (rapiddns
         (demo_system [''broken.org'', ''example.com'', ''missing.net'', ''late.example'']))
         ''broken.org'' =
        ([(Stdout, ''[*] Enumerating subdomains for: broken.org''),
          (Stderr, ''[!] Error running rapiddns for broken.org: lookup failed'')], Inr [])
   \<and> rapiddns (demo_system [''broken.org'', ''example.com'', ''missing.net'', ''late.example''])
       ''missing.net'' = FileNotFoundError
   \<and> enumerated (main
         (demo_system [''broken.org'', ''example.com'', ''missing.net'', ''late.example'']))
       = [''broken.org'', ''example.com'', ''missing.net'']
   \<and> exit_code (main
         (demo_system [''broken.org'', ''example.com'', ''missing.net'', ''late.example''])) = 1"
proof -
  let ?ls = "[''broken.org'', ''example.com'', ''missing.net'', ''late.example'']"
  let ?sys = "demo_system ?ls"
  have h: "rapiddns ?sys ''broken.org'' = Exited 2 [] (''lookup failed'' @ [CHR 0x0A])
           \<and> (2::int) \<noteq> 0"
    by (simp add: demo_system_def demo_tool_def)
  have m: "rapiddns ?sys ''missing.net'' = FileNotFoundError"
    by (simp add: demo_system_def demo_tool_def)
  have i: "input_file ?sys = Some ?ls \<and> launch ?sys = Returns ()"
    by (simp add: demo_system_def)
  have t: "target_domains ?ls = ?ls"
    by code_simp
  have s: "strip (''lookup failed'' @ [CHR 0x0A]) = ''lookup failed''"
    by code_simp
  have w: "takeWhile (\<lambda>d. rapiddns ?sys d \<noteq> FileNotFoundError) ?ls
             @ take 1 (dropWhile (\<lambda>d. rapiddns ?sys d \<noteq> FileNotFoundError) ?ls)
           = [''broken.org'', ''example.com'', ''missing.net'']"
    by (simp add: demo_system_def demo_tool_def)
  have e: "\<exists>d \<in> set (target_domains ?ls). rapiddns ?sys d = FileNotFoundError"
    using m t by simp
  note c = C9_nonzero_exit_continues_missing_tool_aborts
             [of ?sys "''broken.org''" 2 "[]" "''lookup failed'' @ [CHR 0x0A]" "[]" "\<lparr>exit_code = 0, printed = [], enumerated = [], scheduled = [],
                completed = [], browser_closed = False\<rparr>" ?ls]
  from c h have 1: "run_rapiddns (rapiddns ?sys) ''broken.org'' =
        ([(Stdout, ''[*] Enumerating subdomains for: '' @ ''broken.org''),
          (Stderr, ''[!] Error running rapiddns for '' @ ''broken.org'' @ '': ''
                     @ strip (''lookup failed'' @ [CHR 0x0A]))], Inr [])"
    by blast
  from c i e have 2: "enumerated (main ?sys) =
          takeWhile (\<lambda>d. rapiddns ?sys d \<noteq> FileNotFoundError) (target_domains ?ls)
            @ take 1 (dropWhile (\<lambda>d. rapiddns ?sys d \<noteq> FileNotFoundError) (target_domains ?ls))"
      and 3: "exit_code (main ?sys) = 1"
    by blast+
  show ?thesis
    using h m 1 2 3 t s w by simp
qed

section \<open>The two pools: claim C8\<close>

lemma take_screenshot_bracketed:
  "bracketed True False (fst (take_screenshot br url) @ rest) = bracketed True False rest"
  by (simp add: take_screenshot_def run_capture_def try_block_def close_calls_def
      finally_block_def emit_def Let_def split: outcome.splits option.splits bool.splits)

lemma handle_404_bracketed:
  "bracketed True False (handle_404 w hook url @ rest) = bracketed True False rest"
proof -
  obtain evs al where h: "handle_404 w hook url = CaptureCall url # evs @ al"
    and e: "evs = fst (take_screenshot (browser w) url)"
    and a: "al = [] \<or> al = [AlertCall url] \<or> (\<exists>h. al = [AlertCall url, Post h])"
    using handle_404_shape [of w hook url] by blast
  from a have "bracketed True False (al @ rest) = bracketed True False rest" by auto
  with h e show ?thesis
    using take_screenshot_bracketed [of "browser w" url "al @ rest"] by simp
qed

lemma check_subdomain_bracketed: "bracketed False False (check_subdomain w sub hook)"
  by (simp add: check_subdomain_unfold probe_loop_http handle_404_bracketed)

lemma filter_update_length:
  "i < length xs \<Longrightarrow>
   length (filter P (xs[i := y])) + (if P (xs ! i) then 1 else 0)
     = length (filter P xs) + (if P y then 1 else 0)"
proof (induction xs arbitrary: i)
  case Nil
  then show ?case by simp
next
  case (Cons x xs)
  then show ?case by (cases i) auto
qed

lemma perform_consistent:
  assumes c: "consistent P C s" and p: "perform i s = Some s'"
  shows "consistent P C s'"
proof -
  from p have i: "i < length (tasks s)"
    by (simp add: perform_def split: if_splits)
  let ?t = "tasks s ! i"
  from c i have b: "bracketed (in_probe ?t) (in_capture ?t) (todo ?t)"
    by (simp add: consistent_def list_all_length)
  from p i obtain e es where todo: "todo ?t = e # es"
    by (auto simp: perform_def Let_def split: list.splits)
  have fp: "in_flight_probe u + (if in_probe ?t then 1 else 0)
              = in_flight_probe s + (if in_probe y then 1 else 0)"
    if "tasks u = (tasks s)[i := y]" for u :: loop and y
    using filter_update_length [OF i, of in_probe y] that by (simp add: in_flight_probe_def)
  have fc: "in_flight_capture u + (if in_capture ?t then 1 else 0)
              = in_flight_capture s + (if in_capture y then 1 else 0)"
    if "tasks u = (tasks s)[i := y]" for u :: loop and y
    using filter_update_length [OF i, of in_capture y] that by (simp add: in_flight_capture_def)
  have la: "list_all (\<lambda>t. bracketed (in_probe t) (in_capture t) (todo t)) (tasks u)"
    if "tasks u = (tasks s)[i := y]" "bracketed (in_probe y) (in_capture y) (todo y)"
    for u :: loop and y
    using c that set_update_subset_insert [of "tasks s" i y]
    by (auto simp: consistent_def list_all_iff)
  have sem: "httpx_semaphore s + in_flight_probe s = P"
            "browser_semaphore s + in_flight_capture s = C"
    using c by (simp_all add: consistent_def)
  consider (ap) "e = AcquireProbe" | (rp) "e = ReleaseProbe" | (ac) "e = AcquireCapture"
    | (rc) "e = ReleaseCapture"
    | (other) "e \<noteq> AcquireProbe" "e \<noteq> ReleaseProbe" "e \<noteq> AcquireCapture" "e \<noteq> ReleaseCapture"
    by blast
  then show ?thesis
  proof cases
    case ap
    with p i todo have v: "httpx_semaphore s \<noteq> 0"
      and s': "s' = s\<lparr>httpx_semaphore := httpx_semaphore s - 1,
                      tasks := (tasks s)[i := ?t\<lparr>in_probe := True, todo := es\<rparr>]\<rparr>"
      by (auto simp: perform_def Let_def split: if_splits)
    from b todo ap have n: "\<not> in_probe ?t" "\<not> in_capture ?t" "bracketed True (in_capture ?t) es"
      by auto
    from s' have t: "tasks s' = (tasks s)[i := ?t\<lparr>in_probe := True, todo := es\<rparr>]" by simp
    show ?thesis
      using fp [OF t] fc [OF t] la [OF t] n sem v s'
      by (simp add: consistent_def)
  next
    case rp
    with p i todo have
      s': "s' = s\<lparr>httpx_semaphore := httpx_semaphore s + 1,
                      tasks := (tasks s)[i := ?t\<lparr>in_probe := False, todo := es\<rparr>]\<rparr>"
      by (auto simp: perform_def Let_def split: if_splits)
    from b todo rp have n: "in_probe ?t" "\<not> in_capture ?t" "bracketed False (in_capture ?t) es"
      by auto
    from s' have t: "tasks s' = (tasks s)[i := ?t\<lparr>in_probe := False, todo := es\<rparr>]" by simp
    show ?thesis
      using fp [OF t] fc [OF t] la [OF t] n sem s'
      by (simp add: consistent_def)
  next
    case ac
    with p i todo have v: "browser_semaphore s \<noteq> 0"
      and s': "s' = s\<lparr>browser_semaphore := browser_semaphore s - 1,
                      tasks := (tasks s)[i := ?t\<lparr>in_capture := True, todo := es\<rparr>]\<rparr>"
      by (auto simp: perform_def Let_def split: if_splits)
    from b todo ac have n: "in_probe ?t" "\<not> in_capture ?t" "bracketed (in_probe ?t) True es"
      by auto
    from s' have t: "tasks s' = (tasks s)[i := ?t\<lparr>in_capture := True, todo := es\<rparr>]" by simp
    show ?thesis
      using fp [OF t] fc [OF t] la [OF t] n sem v s'
      by (simp add: consistent_def)
  next
    case rc
    with p i todo have
      s': "s' = s\<lparr>browser_semaphore := browser_semaphore s + 1,
                      tasks := (tasks s)[i := ?t\<lparr>in_capture := False, todo := es\<rparr>]\<rparr>"
      by (auto simp: perform_def Let_def split: if_splits)
    from b todo rc have n: "in_probe ?t" "in_capture ?t" "bracketed (in_probe ?t) False es"
      by auto
    from s' have t: "tasks s' = (tasks s)[i := ?t\<lparr>in_capture := False, todo := es\<rparr>]" by simp
    show ?thesis
      using fp [OF t] fc [OF t] la [OF t] n sem s'
      by (simp add: consistent_def)
  next
    case other
    with p i todo have
      s': "s' = s\<lparr>tasks := (tasks s)[i := ?t\<lparr>todo := es\<rparr>]\<rparr>"
      by (auto simp: perform_def Let_def split: if_splits)
    from b todo other have n: "bracketed (in_probe ?t) (in_capture ?t) es"
      by simp
    from s' have t: "tasks s' = (tasks s)[i := ?t\<lparr>todo := es\<rparr>]" by simp
    show ?thesis
      using fp [OF t] fc [OF t] la [OF t] n sem s'
      by (simp add: consistent_def)
  qed
qed

lemma run_schedule_consistent:
  "consistent P C s \<Longrightarrow> consistent P C (run_schedule sched s)"
proof (induction sched arbitrary: s)
  case Nil
  then show ?case by simp
next
  case (Cons i sched)
  show ?case
  proof (cases "perform i s")
    case None
    with Cons show ?thesis by simp
  next
    case (Some s')
    with Cons perform_consistent [of P C s i s'] show ?thesis by simp
  qed
qed

lemma event_loop_consistent:
  "consistent HTTPX_CONCURRENCY SCREENSHOT_CONCURRENCY (event_loop w hook subs)"
proof -
  have "filter in_probe (map (\<lambda>sub. spawn (check_subdomain w sub hook)) subs) = []"
       "filter in_capture (map (\<lambda>sub. spawn (check_subdomain w sub hook)) subs) = []"
    by (induction subs) (simp_all add: spawn_def)
  then show ?thesis
    by (simp add: consistent_def event_loop_def in_flight_probe_def in_flight_capture_def
        list_all_iff spawn_def check_subdomain_bracketed)
qed

lemma holder_exists:
  assumes "0 < length (filter Q xs)"
  shows "\<exists>i < length xs. Q (xs ! i)"
proof -
  from assms have "filter Q xs \<noteq> []" by simp
  then obtain x where x: "x \<in> set xs" "Q x"
    by (auto simp: filter_empty_conv)
  from x(1) obtain i where "i < length xs" "xs ! i = x"
    by (auto simp: in_set_conv_nth)
  with x(2) show ?thesis by blast
qed

lemma perform_plain:
  assumes "i < length (tasks s)" and "todo (tasks s ! i) = e # es"
    and "e \<noteq> AcquireProbe" and "e \<noteq> AcquireCapture"
  shows "perform i s \<noteq> None"
  using assms by (simp add: perform_def Let_def)

lemma perform_acquire_probe:
  assumes "i < length (tasks s)" and "todo (tasks s ! i) = AcquireProbe # es"
    and "httpx_semaphore s \<noteq> 0"
  shows "perform i s \<noteq> None"
  using assms by (simp add: perform_def Let_def)

lemma perform_acquire_capture:
  assumes "i < length (tasks s)" and "todo (tasks s ! i) = AcquireCapture # es"
    and "browser_semaphore s \<noteq> 0"
  shows "perform i s \<noteq> None"
  using assms by (simp add: perform_def Let_def)

lemma bracketed_in_capture:
  assumes "bracketed p True evs"
  shows "\<exists>e es. evs = e # es \<and> e \<noteq> AcquireProbe \<and> e \<noteq> AcquireCapture"
proof (cases evs)
  case Nil
  with assms show ?thesis by simp
next
  case (Cons e es)
  with assms show ?thesis by (auto split: if_splits)
qed

lemma bracketed_in_probe:
  assumes "bracketed True False evs"
  shows "\<exists>e es. evs = e # es \<and> e \<noteq> AcquireProbe"
proof (cases evs)
  case Nil
  with assms show ?thesis by simp
next
  case (Cons e es)
  with assms show ?thesis by (auto split: if_splits)
qed


lemma capture_holder_can_run:
  assumes i: "i < length (tasks s)" and h: "in_capture (tasks s ! i)"
    and b: "bracketed (in_probe (tasks s ! i)) (in_capture (tasks s ! i)) (todo (tasks s ! i))"
  shows "perform i s \<noteq> None"
proof -
  from h b have "bracketed (in_probe (tasks s ! i)) True (todo (tasks s ! i))" by simp
  then obtain e es where t: "todo (tasks s ! i) = e # es"
    and n: "e \<noteq> AcquireProbe" "e \<noteq> AcquireCapture"
    using bracketed_in_capture by blast
  show ?thesis by (rule perform_plain [OF i t n])
qed

lemma probe_holder_can_run:
  assumes c: "consistent P C s" and C: "0 < C"
    and i: "i < length (tasks s)" and p: "in_probe (tasks s ! i)"
  shows "\<exists>j. perform j s \<noteq> None"
proof -
  from c have all: "\<And>k. k < length (tasks s) \<Longrightarrow>
      bracketed (in_probe (tasks s ! k)) (in_capture (tasks s ! k)) (todo (tasks s ! k))"
    by (simp add: consistent_def list_all_length)
  show ?thesis
  proof (cases "in_capture (tasks s ! i)")
    case True
    have "perform i s \<noteq> None" by (rule capture_holder_can_run [OF i True all [OF i]])
    then show ?thesis by blast
  next
    case False
    with p all [OF i] have "bracketed True False (todo (tasks s ! i))" by simp
    then obtain e es where t: "todo (tasks s ! i) = e # es" and e: "e \<noteq> AcquireProbe"
      using bracketed_in_probe by blast
    show ?thesis
    proof (cases "e = AcquireCapture")
      case ac: True
      show ?thesis
      proof (cases "browser_semaphore s = 0")
        case True
        with c C have "0 < length (filter in_capture (tasks s))"
          by (simp add: consistent_def in_flight_capture_def)
        from holder_exists [OF this]
        obtain j where j: "j < length (tasks s)" "in_capture (tasks s ! j)"
          by blast
        have "perform j s \<noteq> None" by (rule capture_holder_can_run [OF j all [OF j(1)]])
        then show ?thesis by blast
      next
        case False
        from t ac have t': "todo (tasks s ! i) = AcquireCapture # es" by simp
        have "perform i s \<noteq> None" by (rule perform_acquire_capture [OF i t' False])
        then show ?thesis by blast
      qed
    next
      case False
      have "perform i s \<noteq> None" by (rule perform_plain [OF i t e False])
      then show ?thesis by blast
    qed
  qed
qed


lemma some_task_can_run:
  assumes c: "consistent P C s" and P: "0 < P" and C: "0 < C"
    and i: "i < length (tasks s)" and u: "todo (tasks s ! i) \<noteq> []"
  shows "\<exists>j. perform j s \<noteq> None"
proof (cases "in_probe (tasks s ! i)")
  case True
  show ?thesis by (rule probe_holder_can_run [OF c C i True])
next
  case False
  from u obtain e es where t: "todo (tasks s ! i) = e # es"
    by (cases "todo (tasks s ! i)") auto
  show ?thesis
  proof (cases "e = AcquireProbe")
    case ap: True
    show ?thesis
    proof (cases "httpx_semaphore s = 0")
      case True
      with c P have "0 < length (filter in_probe (tasks s))"
        by (simp add: consistent_def in_flight_probe_def)
      from holder_exists [OF this]
      obtain j where j: "j < length (tasks s)" "in_probe (tasks s ! j)"
        by blast
      show ?thesis by (rule probe_holder_can_run [OF c C j])
    next
      case False
      from t ap have t': "todo (tasks s ! i) = AcquireProbe # es" by simp
      have "perform i s \<noteq> None" by (rule perform_acquire_probe [OF i t' False])
      then show ?thesis by blast
    qed
  next
    case np: False
    from c i have "bracketed (in_probe (tasks s ! i)) (in_capture (tasks s ! i)) (todo (tasks s ! i))"
      by (simp add: consistent_def list_all_length)
    with False t have nc: "e \<noteq> AcquireCapture"
      by (auto split: if_splits)
    have "perform i s \<noteq> None" by (rule perform_plain [OF i t np nc])
    then show ?thesis by blast
  qed
qed

lemma reachable_consistent:
  "consistent HTTPX_CONCURRENCY SCREENSHOT_CONCURRENCY
     (run_schedule sched (event_loop w hook subs))"
  by (rule run_schedule_consistent [OF event_loop_consistent])

lemma consistent_runnable:
  assumes c: "consistent P C s" and P: "0 < P" and C: "0 < C" and u: "unfinished s"
  shows "runnable s"
proof -
  from u obtain t where "t \<in> set (tasks s)" "todo t \<noteq> []"
    by (auto simp: unfinished_def list_ex_iff)
  then obtain i where i: "i < length (tasks s)" "todo (tasks s ! i) \<noteq> []"
    by (auto simp: in_set_conv_nth)
  from some_task_can_run [OF c P C i] obtain j where j: "perform j s \<noteq> None"
    by blast
  then have "j < length (tasks s)"
    by (simp add: perform_def split: if_splits)
  with j show ?thesis
    by (auto simp: runnable_def list_ex_iff)
qed

text \<open>Claim C8: in every state that the event loop reaches, under any schedule and for any
  candidates, HTTP layer and browser, the tasks inside \<open>async with httpx_semaphore\<close> are
  at most \<open>HTTPX_CONCURRENCY\<close> (100) and the tasks inside
  \<open>async with browser_semaphore\<close> at most \<open>SCREENSHOT_CONCURRENCY\<close> (5): each
  semaphore and the tasks inside its block add up to the capacity. Acquisition has no failing
  outcome: a task that finds no free slot stays suspended, and while any task has events left
  some task can run, so that a suspended task is never stuck for good.\<close>

theorem C8_in_flight_within_capacity:
  "in_flight_probe (run_schedule sched (event_loop w hook subs)) \<le> HTTPX_CONCURRENCY
   \<and> in_flight_capture (run_schedule sched (event_loop w hook subs)) \<le> SCREENSHOT_CONCURRENCY
   \<and> httpx_semaphore (run_schedule sched (event_loop w hook subs))
       + in_flight_probe (run_schedule sched (event_loop w hook subs)) = 100
   \<and> browser_semaphore (run_schedule sched (event_loop w hook subs))
       + in_flight_capture (run_schedule sched (event_loop w hook subs)) = 5
   \<and> (unfinished (run_schedule sched (event_loop w hook subs))
        \<longrightarrow> runnable (run_schedule sched (event_loop w hook subs)))"
proof -
  let ?s = "run_schedule sched (event_loop w hook subs)"
  have c: "consistent HTTPX_CONCURRENCY SCREENSHOT_CONCURRENCY ?s"
    by (rule reachable_consistent)
  have P: "0 < HTTPX_CONCURRENCY" and C: "0 < SCREENSHOT_CONCURRENCY"
    by (simp_all add: HTTPX_CONCURRENCY_def SCREENSHOT_CONCURRENCY_def)
  have r: "runnable ?s" if "unfinished ?s"
    by (rule consistent_runnable [OF c P C that])
  from c have "httpx_semaphore ?s + in_flight_probe ?s = HTTPX_CONCURRENCY"
    and "browser_semaphore ?s + in_flight_capture ?s = SCREENSHOT_CONCURRENCY"
    by (simp_all add: consistent_def)
  with r show ?thesis
    by (simp add: HTTPX_CONCURRENCY_def SCREENSHOT_CONCURRENCY_def)
qed

text \<open>Claim C8 on two candidates that answer 404, at the state where both hold a probe slot
  and the first is inside its capture.\<close>

theorem C8_in_flight_within_capacity_witness:
  "in_flight_probe (run_schedule [0, 0, 0, 1, 1, 1, 0]
       (event_loop (stub_world (Response 404) (Response 404) ok_script) None
          [''a.example.com'', ''b.example.com''])) = 2
   \<and> in_flight_capture (run_schedule [0, 0, 0, 1, 1, 1, 0]
       (event_loop (stub_world (Response 404) (Response 404) ok_script) None
          [''a.example.com'', ''b.example.com''])) = 1
   \<and> httpx_semaphore (run_schedule [0, 0, 0, 1, 1, 1, 0]
       (event_loop (stub_world (Response 404) (Response 404) ok_script) None
          [''a.example.com'', ''b.example.com''])) = 98
   \<and> browser_semaphore (run_schedule [0, 0, 0, 1, 1, 1, 0]
       (event_loop (stub_world (Response 404) (Response 404) ok_script) None
          [''a.example.com'', ''b.example.com''])) = 4
   \<and> unfinished (run_schedule [0, 0, 0, 1, 1, 1, 0]
       (event_loop (stub_world (Response 404) (Response 404) ok_script) None
          [''a.example.com'', ''b.example.com'']))
   \<and> runnable (run_schedule [0, 0, 0, 1, 1, 1, 0]
       (event_loop (stub_world (Response 404) (Response 404) ok_script) None
          [''a.example.com'', ''b.example.com'']))"
proof -
  let ?s = "run_schedule [0, 0, 0, 1, 1, 1, 0]
       (event_loop (stub_world (Response 404) (Response 404) ok_script) None
          [''a.example.com'', ''b.example.com''])"
  have p: "in_flight_probe ?s = 2" by code_simp
  have c: "in_flight_capture ?s = 1" by code_simp
  have u: "unfinished ?s" by code_simp
  show ?thesis
    using p c u
      C8_in_flight_within_capacity [of "[0, 0, 0, 1, 1, 1, 0]"
        "stub_world (Response 404) (Response 404) ok_script" None
        "[''a.example.com'', ''b.example.com'']"]
    by simp
qed

end
